theory Spec2Isabelle
  imports Complex_Main "HOL-Library.AList"
begin

section \<open>Python values shared by the three tools\<close>

text \<open>
  Exceptions are values. \<open>SystemExit n\<close> is \<^verbatim>\<open>sys.exit(n)\<close>; the other constructors
  are the exception classes the three scripts raise or let escape. The payload of a
  \<open>ValueError\<close> identifies the \<^verbatim>\<open>raise\<close> statement and the values formatted into its
  message, not the formatted text. \<open>LibraryError\<close> is an exception raised inside the
  spreadsheet library, with the name of its class.
\<close>

record csv_row =
  row_question_id :: "string option"
  row_score :: "string option"

datatype value_error =
    MissingColumns "string list option"
  | InvalidDataRow csv_row
  | QuestionIdOutOfRange int
  | ScoreOutOfRange int int
  | NoResponses

datatype exc =
    ValueError value_error
  | KeyError string
  | TypeError
  | AttributeError
  | LibraryError string
  | SystemExit nat

text \<open>
  What the interpreter does with the outcome of \<^verbatim>\<open>main()\<close>: a normal return ends the
  process with status 0, \<^verbatim>\<open>sys.exit(n)\<close> with status \<open>n\<close>, and an exception that
  nothing catches prints a traceback to standard error and ends it with status 1.
\<close>

fun exit_status :: "exc + 'a \<Rightarrow> nat" where
  "exit_status (Inr _) = 0"
| "exit_status (Inl (SystemExit n)) = n"
| "exit_status (Inl _) = 1"

section \<open>Readiness scorer: \<^verbatim>\<open>score_ir_readiness.py\<close>\<close>

subsection \<open>Constants and the category table\<close>

definition MIN_Q_ID :: int where "MIN_Q_ID = 1"
definition MAX_Q_ID :: int where "MAX_Q_ID = 34"
definition MIN_SCORE :: int where "MIN_SCORE = 0"
definition MAX_SCORE :: int where "MAX_SCORE = 3"

text \<open>
  \<^verbatim>\<open>CATEGORY_MAP\<close> is a dict built from seven \<^verbatim>\<open>range\<close> comprehensions; \<^verbatim>\<open>range(a, b)\<close>
  holds \<open>a \<le> q < b\<close>. The ranges are disjoint, so the order of the tests is immaterial.
\<close>

definition CATEGORY_MAP :: "int \<Rightarrow> string option" where
  "CATEGORY_MAP q =
     (if 1 \<le> q \<and> q < 8 then Some ''Preparation & Governance''
      else if 8 \<le> q \<and> q < 15 then Some ''Detection & Reporting''
      else if 15 \<le> q \<and> q < 19 then Some ''Containment''
      else if 19 \<le> q \<and> q < 23 then Some ''Eradication''
      else if 23 \<le> q \<and> q < 28 then Some ''Recovery''
      else if 28 \<le> q \<and> q < 32 then Some ''Lessons Learned''
      else if 32 \<le> q \<and> q < 35 then Some ''Advanced Controls''
      else None)"

text \<open>\<^verbatim>\<open>CATEGORY_MAP.get(q_id, "Uncategorised")\<close>\<close>

definition category_of :: "int \<Rightarrow> string" where
  "category_of q_id = (case CATEGORY_MAP q_id of None \<Rightarrow> ''Uncategorised'' | Some c \<Rightarrow> c)"

record CategoryScore =
  name :: string
  total :: int
  max_total :: int
  questions :: "int list"

text \<open>
  A \<^verbatim>\<open>Dict[str, CategoryScore]\<close> in insertion order: an association list with distinct
  keys, written with \<open>AList.update\<close> (an existing key keeps its place, a new one goes last).
\<close>

type_synonym categories = "(string \<times> CategoryScore) list"

subsection \<open>\<^verbatim>\<open>read_responses\<close>\<close>

text \<open>
  The input file is either absent or a CSV file as \<^verbatim>\<open>csv.DictReader\<close> presents it:
  the field names of its header line (\<open>None\<close> for an empty file) and its rows. A row is
  seen only through \<^verbatim>\<open>row["question_id"]\<close> and \<^verbatim>\<open>row["score"]\<close> (the fields
  \<open>row_question_id\<close> and \<open>row_score\<close>); a field the line does not have is Python's
  \<^verbatim>\<open>None\<close>, here \<open>None\<close>.
\<close>

record csv_file =
  fieldnames :: "string list option"
  rows :: "csv_row list"

datatype 'a input_file = FileNotFound | File 'a

text \<open>
  \<^verbatim>\<open>int(x)\<close> is Python's own conversion and is taken as the parameter \<open>py_int\<close>, which
  gives \<open>None\<close> where \<^verbatim>\<open>int\<close> raises \<^verbatim>\<open>ValueError\<close>; on \<^verbatim>\<open>None\<close> it raises
  \<^verbatim>\<open>TypeError\<close>. Both are caught by the inner \<^verbatim>\<open>except\<close>.
\<close>

definition int_of_field :: "(string \<Rightarrow> int option) \<Rightarrow> string option \<Rightarrow> int option" where
  "int_of_field py_int x = (case x of None \<Rightarrow> None | Some s \<Rightarrow> py_int s)"

text \<open>The body of the \<^verbatim>\<open>for row in reader\<close> loop; \<open>scores\<close> is the dict built so far.\<close>

fun read_rows ::
  "(string \<Rightarrow> int option) \<Rightarrow> (int \<times> int) list \<Rightarrow> csv_row list \<Rightarrow> exc + (int \<times> int) list" where
  "read_rows py_int scores [] = Inr scores"
| "read_rows py_int scores (row # rest) =
     (case int_of_field py_int (row_question_id row) of
        None \<Rightarrow> Inl (ValueError (InvalidDataRow row))
      | Some q_id \<Rightarrow>
         (case int_of_field py_int (row_score row) of
            None \<Rightarrow> Inl (ValueError (InvalidDataRow row))
          | Some score \<Rightarrow>
              if q_id < MIN_Q_ID \<or> q_id > MAX_Q_ID then
                Inl (ValueError (QuestionIdOutOfRange q_id))
              else if score < MIN_SCORE \<or> score > MAX_SCORE then
                Inl (ValueError (ScoreOutOfRange q_id score))
              else read_rows py_int (AList.update q_id score scores) rest))"

definition read_responses ::
  "(string \<Rightarrow> int option) \<Rightarrow> csv_file input_file \<Rightarrow> exc + (int \<times> int) list" where
  "read_responses py_int path =
     (case path of
        FileNotFound \<Rightarrow> Inl (SystemExit 1)
      | File f \<Rightarrow>
          let names = (case fieldnames f of None \<Rightarrow> [] | Some ns \<Rightarrow> ns) in
          if \<not> {''question_id'', ''score''} \<subseteq> set names then
            Inl (ValueError (MissingColumns (fieldnames f)))
          else
            (case read_rows py_int [] (rows f) of
               Inl e \<Rightarrow> Inl e
             | Inr scores \<Rightarrow>
                 if scores = [] then Inl (ValueError NoResponses) else Inr scores))"

subsection \<open>\<^verbatim>\<open>build_category_scores\<close>\<close>

text \<open>
  First loop: one step for each \<open>q_id\<close> of \<^verbatim>\<open>range(MIN_Q_ID, MAX_Q_ID + 1)\<close>. The
  category is created empty when its name is new, then the question is appended and the
  maximum raised.
\<close>

definition init_question :: "categories \<Rightarrow> int \<Rightarrow> categories" where
  "init_question categories q_id =
     (let cat_name = category_of q_id;
          cat = (case map_of categories cat_name of
                   None \<Rightarrow> \<lparr>name = cat_name, total = 0, max_total = 0, questions = []\<rparr>
                 | Some c \<Rightarrow> c)
      in AList.update cat_name
           (cat\<lparr>questions := questions cat @ [q_id], max_total := max_total cat + MAX_SCORE\<rparr>)
           categories)"

text \<open>
  Second loop: \<^verbatim>\<open>categories[cat_name].total += score\<close>, which raises \<^verbatim>\<open>KeyError\<close> for a
  name that the first loop did not create.
\<close>

fun add_scores :: "categories \<Rightarrow> (int \<times> int) list \<Rightarrow> exc + categories" where
  "add_scores categories [] = Inr categories"
| "add_scores categories ((q_id, score) # rest) =
     (let cat_name = category_of q_id in
      case map_of categories cat_name of
        None \<Rightarrow> Inl (KeyError cat_name)
      | Some cat \<Rightarrow>
          add_scores (AList.update cat_name (cat\<lparr>total := total cat + score\<rparr>) categories) rest)"

definition build_category_scores :: "(int \<times> int) list \<Rightarrow> exc + categories" where
  "build_category_scores responses =
     add_scores (foldl init_question [] [MIN_Q_ID..MAX_Q_ID]) responses"

subsection \<open>\<^verbatim>\<open>compute_overall_score\<close> and \<^verbatim>\<open>classify_maturity\<close>\<close>

text \<open>
  Python's \<^verbatim>\<open>round(x, 1)\<close>, on exact rationals: the nearest multiple of one tenth, a tie
  going to the even one. The source computes on binary floating point; the quotient
  \<open>total / max_total * 30\<close> is modelled exactly.
\<close>

definition py_round1 :: "rat \<Rightarrow> rat" where
  "py_round1 x =
     (let y = x * 10; f = \<lfloor>y\<rfloor>; d = y - of_int f
      in of_int (if d < 1 / 2 then f
                 else if 1 / 2 < d then f + 1
                 else if even f then f else f + 1) / 10)"

definition compute_overall_score :: "categories \<Rightarrow> int \<times> int \<times> rat" where
  "compute_overall_score categories =
     (let total' = sum_list (map (\<lambda>(n, cat). total cat) categories);
          max_total' = sum_list (map (\<lambda>(n, cat). max_total cat) categories)
      in if max_total' = 0 then (0, 0, 0)
         else (total', max_total', py_round1 (of_int total' / of_int max_total' * 30)))"

definition classify_maturity :: "rat \<Rightarrow> string" where
  "classify_maturity normalized_score =
     (if normalized_score \<le> 10 then ''Initial''
      else if 10 < normalized_score \<and> normalized_score \<le> 18 then ''Basic''
      else if 18 < normalized_score \<and> normalized_score \<le> 25 then ''Intermediate''
      else ''Advanced'')"

text \<open>
  \<^verbatim>\<open>main\<close>, up to the values it prints: total, maximum, normalised score and maturity.
\<close>

definition scorer_main ::
  "(string \<Rightarrow> int option) \<Rightarrow> csv_file input_file \<Rightarrow> exc + (int \<times> int \<times> rat \<times> string)" where
  "scorer_main py_int path =
     (case read_responses py_int path of
        Inl e \<Rightarrow> Inl e
      | Inr responses \<Rightarrow>
         (case build_category_scores responses of
            Inl e \<Rightarrow> Inl e
          | Inr categories \<Rightarrow>
              (case compute_overall_score categories of
                 (total', max_total', normalized) \<Rightarrow>
                   Inr (total', max_total', normalized, classify_maturity normalized))))"

section \<open>Python string operations\<close>

text \<open>
  A Python \<^verbatim>\<open>str\<close> is modelled as a \<open>string\<close> of ASCII characters: the text that
  \<^verbatim>\<open>rdata.to_text()\<close> gives is ASCII, other bytes being escaped. \<^verbatim>\<open>lower\<close> and
  \<^verbatim>\<open>upper\<close> change the 26 letters and nothing else.
\<close>

definition lower_char :: "char \<Rightarrow> char" where
  "lower_char c =
     (case map_of (zip ''ABCDEFGHIJKLMNOPQRSTUVWXYZ'' ''abcdefghijklmnopqrstuvwxyz'') c of
        None \<Rightarrow> c | Some d \<Rightarrow> d)"

definition upper_char :: "char \<Rightarrow> char" where
  "upper_char c =
     (case map_of (zip ''abcdefghijklmnopqrstuvwxyz'' ''ABCDEFGHIJKLMNOPQRSTUVWXYZ'') c of
        None \<Rightarrow> c | Some d \<Rightarrow> d)"

definition lower :: "string \<Rightarrow> string" where
  "lower s = map lower_char s"

definition upper :: "string \<Rightarrow> string" where
  "upper s = map upper_char s"

text \<open>\<^verbatim>\<open>s.startswith(p)\<close> and \<^verbatim>\<open>sub in s\<close>\<close>

definition startswith :: "string \<Rightarrow> string \<Rightarrow> bool" where
  "startswith s p = (take (length p) s = p)"

fun contains :: "string \<Rightarrow> string \<Rightarrow> bool" where
  "contains sub [] = (sub = [])"
| "contains sub (c # cs) = (startswith (c # cs) sub \<or> contains sub cs)"

text \<open>
  \<^verbatim>\<open>s.strip()\<close> removes leading and trailing whitespace (tab, line feed, vertical tab,
  form feed, carriage return, the four separators 0x1C to 0x1F, and space);
  \<^verbatim>\<open>s.strip(chars)\<close> removes the characters of \<open>chars\<close> instead.
\<close>

definition whitespace :: "char list" where
  "whitespace = [CHR 0x09, CHR 0x0A, CHR 0x0B, CHR 0x0C, CHR 0x0D,
                 CHR 0x1C, CHR 0x1D, CHR 0x1E, CHR 0x1F, CHR 0x20]"

definition strip_chars :: "char list \<Rightarrow> string \<Rightarrow> string" where
  "strip_chars chars s =
     rev (dropWhile (\<lambda>c. c \<in> set chars) (rev (dropWhile (\<lambda>c. c \<in> set chars) s)))"

definition strip :: "string \<Rightarrow> string" where
  "strip s = strip_chars whitespace s"

text \<open>
  \<^verbatim>\<open>s.replace(old, new)\<close>: the occurrences of \<open>old\<close> are replaced from the left, without
  overlap; an empty \<open>old\<close> matches before every character and at the end.
\<close>

function replace :: "string \<Rightarrow> string \<Rightarrow> string \<Rightarrow> string" where
  "replace old new [] = (if old = [] then new else [])"
| "replace old new (c # cs) =
     (if old = [] then new @ c # replace old new cs
      else if startswith (c # cs) old then new @ replace old new (drop (length old) (c # cs))
      else c # replace old new cs)"
  by pat_completeness auto
termination
  by (relation "measure (\<lambda>(old, new, s). length s)") auto

text \<open>
  \<^verbatim>\<open>s.split(sep)\<close> for a separator of one character, and \<^verbatim>\<open>s.split(sep, 1)\<close> for a string
  that holds the separator: the text before its first occurrence and the text after it.
\<close>

fun split :: "char \<Rightarrow> string \<Rightarrow> string list" where
  "split sep [] = [[]]"
| "split sep (c # cs) =
     (if c = sep then [] # split sep cs
      else (case split sep cs of [] \<Rightarrow> [[c]] | w # ws \<Rightarrow> (c # w) # ws))"

definition split_once :: "char \<Rightarrow> string \<Rightarrow> string \<times> string" where
  "split_once sep s = (takeWhile (\<lambda>c. c \<noteq> sep) s, drop 1 (dropWhile (\<lambda>c. c \<noteq> sep) s))"

text \<open>\<^verbatim>\<open>sep.join(parts)\<close>\<close>

fun join :: "string \<Rightarrow> string list \<Rightarrow> string" where
  "join sep [] = []"
| "join sep [p] = p"
| "join sep (p # q # ps) = p @ sep @ join sep (q # ps)"

section \<open>Email posture checker: \<^verbatim>\<open>email_dmarc_spf_checker.py\<close>\<close>

subsection \<open>\<^verbatim>\<open>lookup_txt_records\<close>\<close>

text \<open>
  \<^verbatim>\<open>dns.resolver.resolve(name, "TXT")\<close> is the parameter \<open>resolve\<close>: it raises one of the
  exceptions of \<open>dns_exception\<close> or answers with records, given here by their
  \<^verbatim>\<open>to_text()\<close>. \<open>OtherException\<close> stands for every other subclass of \<^verbatim>\<open>Exception\<close>.
\<close>

datatype dns_exception = NXDOMAIN | NoAnswer | NoNameservers | OtherException string

type_synonym resolver = "string \<Rightarrow> dns_exception + string list"

definition lookup_txt_records :: "resolver \<Rightarrow> string \<Rightarrow> string list" where
  "lookup_txt_records resolve name' =
     (case resolve name' of
        Inr answers \<Rightarrow>
          map (\<lambda>rdata. replace [CHR 0x22, CHR 0x20, CHR 0x22] '' '' (strip_chars [CHR 0x22] rdata))
            answers
      | Inl NXDOMAIN \<Rightarrow> []
      | Inl NoAnswer \<Rightarrow> []
      | Inl NoNameservers \<Rightarrow> []
      | Inl (OtherException _) \<Rightarrow> [])"

subsection \<open>SPF\<close>

text \<open>The \<^verbatim>\<open>for rec in txt_records\<close> loop of \<^verbatim>\<open>get_spf_record\<close>, with its final \<^verbatim>\<open>return None\<close>.\<close>

fun first_spf :: "string list \<Rightarrow> string option" where
  "first_spf [] = None"
| "first_spf (rec # rest) =
     (if startswith (lower rec) ''v=spf1'' then Some rec else first_spf rest)"

definition get_spf_record :: "resolver \<Rightarrow> string \<Rightarrow> string option" where
  "get_spf_record resolve domain = first_spf (lookup_txt_records resolve domain)"

text \<open>\<^verbatim>\<open>not spf\<close> holds for \<^verbatim>\<open>None\<close> and for the empty string.\<close>

definition assess_spf :: "string option \<Rightarrow> bool \<times> string \<times> string" where
  "assess_spf spf =
     (if spf = None \<or> spf = Some [] then (False, [], ''No SPF record found.'')
      else
        let record' = strip (the spf);
            lower' = lower record';
            parts1 =
              (if contains '' -all'' lower' then [''Restrictive policy (-all).'']
               else if contains '' ~all'' lower' then
                 [''Soft fail policy (~all). Consider -all if mature.'']
               else if contains '' ?all'' lower' \<or> contains ''all'' lower' then
                 [''Permissive 'all' mechanism. Review necessity.'']
               else []);
            parts2 =
              (if contains ''include:'' lower' then
                 parts1 @ [''Uses include mechanisms (check third-party senders).'']
               else parts1);
            parts3 =
              (if contains '' ip4:'' lower' \<or> contains '' ip6:'' lower' then
                 parts2 @ [''Direct IP mechanisms configured.'']
               else parts2);
            parts4 =
              (if contains '' redirect='' lower' then
                 parts3 @ [''Uses redirect (advanced configuration).'']
               else parts3);
            assessment_parts =
              (if parts4 = [] then [''SPF present but could not derive specific guidance.'']
               else parts4)
        in (True, record', join '' '' assessment_parts))"

subsection \<open>DMARC\<close>

definition parse_dmarc_tag :: "string \<Rightarrow> (string \<rightharpoonup> string)" where
  "parse_dmarc_tag record' =
     foldl (\<lambda>tags part.
              let part' = strip part in
              if CHR ''='' \<in> set part' then
                (case split_once CHR ''='' part' of
                   (k, v) \<Rightarrow> tags(lower (strip k) \<mapsto> strip v))
              else tags)
       Map.empty (split CHR '';'' record')"

fun first_dmarc :: "string list \<Rightarrow> string option" where
  "first_dmarc [] = None"
| "first_dmarc (rec # rest) =
     (if startswith (lower rec) ''v=dmarc1'' then Some rec else first_dmarc rest)"

definition get_dmarc_record :: "resolver \<Rightarrow> string \<Rightarrow> string option" where
  "get_dmarc_record resolve domain =
     first_dmarc (lookup_txt_records resolve (''_dmarc.'' @ domain))"

text \<open>\<^verbatim>\<open>tags.get(key, default)\<close>\<close>

definition tag_get :: "(string \<rightharpoonup> string) \<Rightarrow> string \<Rightarrow> string \<Rightarrow> string" where
  "tag_get tags key default' = (case tags key of None \<Rightarrow> default' | Some v \<Rightarrow> v)"

definition assess_dmarc :: "string option \<Rightarrow> bool \<times> string \<times> string \<times> string" where
  "assess_dmarc dmarc =
     (if dmarc = None \<or> dmarc = Some [] then (False, [], [], ''No DMARC record found.'')
      else
        let record' = strip (the dmarc);
            tags = parse_dmarc_tag record';
            policy = lower (tag_get tags ''p'' []);
            pct = tag_get tags ''pct'' ''100'';
            rua = tag_get tags ''rua'' [];
            parts1 =
              (if policy = ''none'' then
                 [''Monitoring-only DMARC policy (p=none). Consider quarantine/reject.'']
               else if policy = ''quarantine'' then
                 [''Quarantine policy in place (p=quarantine).'']
               else if policy = ''reject'' then [''Strong enforcement policy (p=reject).'']
               else [''DMARC policy missing or unrecognised; review required.'']);
            parts2 =
              (if rua \<noteq> [] then parts1 @ [''Aggregate reporting (rua) configured.'']
               else parts1 @ [''No aggregate reporting address (rua) configured.'']);
            assessment_parts =
              (if pct \<noteq> ''100'' then
                 parts2 @ [''DMARC applies to '' @ pct @ ''% of messages (pct='' @ pct @ '').'']
               else parts2)
        in (True, record', (if policy = [] then ''(not set)'' else policy),
            join '' '' assessment_parts))"

subsection \<open>DKIM\<close>

text \<open>
  The \<^verbatim>\<open>for rec in txt_records\<close> loop of \<^verbatim>\<open>get_dkim_record\<close>: the test is
  \<^verbatim>\<open>"v=DKIM1" in rec.upper()\<close>, the literal as the source writes it. \<open>None\<close> is the loop
  running to its end.
\<close>

fun first_dkim :: "string list \<Rightarrow> string option" where
  "first_dkim [] = None"
| "first_dkim (rec # rest) =
     (if contains ''v=DKIM1'' (upper rec) then Some rec else first_dkim rest)"

text \<open>
  \<^verbatim>\<open>not selector\<close> holds for \<^verbatim>\<open>None\<close> and for the empty string. In the last case
  \<open>txt_records\<close> is not empty, so \<^verbatim>\<open>txt_records[0]\<close> is its head.
\<close>

definition get_dkim_record ::
  "resolver \<Rightarrow> string \<Rightarrow> string option \<Rightarrow> bool \<times> string \<times> bool \<times> string" where
  "get_dkim_record resolve domain selector =
     (if selector = None \<or> selector = Some [] then (False, [], False, [])
      else
        let sel = the selector;
            name' = sel @ ''._domainkey.'' @ domain;
            txt_records = lookup_txt_records resolve name'
        in (case txt_records of
              [] \<Rightarrow> (True, sel, False, [])
            | first # _ \<Rightarrow>
                (case first_dkim txt_records of
                   Some rec \<Rightarrow> (True, sel, True, rec)
                 | None \<Rightarrow> (True, sel, True, first))))"

section \<open>RACI generator: \<^verbatim>\<open>build_raci_from_yaml.py\<close>\<close>

subsection \<open>Parsed YAML\<close>

text \<open>
  What \<^verbatim>\<open>yaml.safe_load\<close> returns: \<^verbatim>\<open>None\<close>, a bool, an int, a str, a list or a dict.
  A dict is an association list in insertion order with distinct keys. Floats,
  timestamps, binary scalars and sets are left out of the model.
\<close>

datatype yaml =
    YNull
  | YBool bool
  | YInt int
  | YStr string
  | YList "yaml list"
  | YMap "(yaml \<times> yaml) list"

text \<open>Truth value, as \<^verbatim>\<open>x or y\<close> tests it.\<close>

fun truthy :: "yaml \<Rightarrow> bool" where
  "truthy YNull = False"
| "truthy (YBool b) = b"
| "truthy (YInt i) = (i \<noteq> 0)"
| "truthy (YStr s) = (s \<noteq> [])"
| "truthy (YList xs) = (xs \<noteq> [])"
| "truthy (YMap kvs) = (kvs \<noteq> [])"

text \<open>
  \<^verbatim>\<open>key in x\<close> for a str \<open>key\<close>: a key of a dict, an element of a list, a substring of a
  str; \<^verbatim>\<open>TypeError\<close> for a value that is not iterable.
\<close>

fun py_in :: "string \<Rightarrow> yaml \<Rightarrow> exc + bool" where
  "py_in key (YMap kvs) = Inr (YStr key \<in> fst ` set kvs)"
| "py_in key (YList xs) = Inr (YStr key \<in> set xs)"
| "py_in key (YStr s) = Inr (contains key s)"
| "py_in key _ = Inl TypeError"

text \<open>
  \<^verbatim>\<open>x[key]\<close> for a str \<open>key\<close>: a dict gives the value or raises \<^verbatim>\<open>KeyError\<close>; a list and a
  str take integer indices only; the other values are not subscriptable.
\<close>

fun py_getitem :: "yaml \<Rightarrow> string \<Rightarrow> exc + yaml" where
  "py_getitem (YMap kvs) key =
     (case map_of kvs (YStr key) of None \<Rightarrow> Inl (KeyError key) | Some v \<Rightarrow> Inr v)"
| "py_getitem _ key = Inl TypeError"

text \<open>\<^verbatim>\<open>x.get(key, default)\<close>: only a dict has the method.\<close>

fun py_get :: "yaml \<Rightarrow> string \<Rightarrow> yaml \<Rightarrow> exc + yaml" where
  "py_get (YMap kvs) key default' =
     Inr (case map_of kvs (YStr key) of None \<Rightarrow> default' | Some v \<Rightarrow> v)"
| "py_get _ key default' = Inl AttributeError"

text \<open>
  \<^verbatim>\<open>for x in v\<close>: the elements of a list, the keys of a dict, the characters of a str;
  \<^verbatim>\<open>TypeError\<close> otherwise.
\<close>

fun py_iter :: "yaml \<Rightarrow> exc + yaml list" where
  "py_iter (YList xs) = Inr xs"
| "py_iter (YMap kvs) = Inr (map fst kvs)"
| "py_iter (YStr s) = Inr (map (\<lambda>c. YStr [c]) s)"
| "py_iter _ = Inl TypeError"

fun isinstance_list :: "yaml \<Rightarrow> bool" where
  "isinstance_list (YList _) = True"
| "isinstance_list _ = False"

subsection \<open>\<^verbatim>\<open>load_yaml\<close>\<close>

text \<open>
  The file at the path: absent, or holding text that \<^verbatim>\<open>yaml.safe_load\<close> rejects
  (\<^verbatim>\<open>yaml.YAMLError\<close>, with the text of the error) or parses. A run of a function gives
  the lines it printed to standard error and its outcome.
\<close>

datatype yaml_source = YAMLError string | Parsed yaml

type_synonym 'a run = "string list \<times> (exc + 'a)"

definition load_yaml :: "string \<Rightarrow> yaml_source input_file \<Rightarrow> yaml run" where
  "load_yaml path p =
     (case p of
        FileNotFound \<Rightarrow> ([''Error: input YAML not found: '' @ path], Inl (SystemExit 1))
      | File (YAMLError e) \<Rightarrow> ([''Error parsing YAML file: '' @ e], Inl (SystemExit 1))
      | File (Parsed doc) \<Rightarrow>
          let data = (if truthy doc then doc else YMap []) in
          (case py_in ''roles'' data of
             Inl e \<Rightarrow> ([], Inl e)
           | Inr has_roles \<Rightarrow>
              (case (if has_roles then py_in ''tasks'' data else Inr False) of
                 Inl e \<Rightarrow> ([], Inl e)
               | Inr False \<Rightarrow>
                   ([''Error: YAML must contain 'roles' and 'tasks' keys.''], Inl (SystemExit 1))
               | Inr True \<Rightarrow>
                  (case py_getitem data ''roles'' of
                     Inl e \<Rightarrow> ([], Inl e)
                   | Inr roles \<Rightarrow>
                      (case (if isinstance_list roles then py_getitem data ''tasks''
                             else Inr YNull) of
                         Inl e \<Rightarrow> ([], Inl e)
                       | Inr tasks \<Rightarrow>
                           if \<not> isinstance_list roles \<or> \<not> isinstance_list tasks then
                             ([''Error: 'roles' must be a list and 'tasks' must be a list.''],
                              Inl (SystemExit 1))
                           else ([], Inr data))))))"

subsection \<open>\<^verbatim>\<open>build_raci_excel\<close>\<close>

text \<open>
  \<^verbatim>\<open>str(x)\<close> is Python's own conversion and is taken as the parameter \<open>py_str\<close>.
  \<open>task_assignments\<close> is \<^verbatim>\<open>task.get("assignments", {}) or {}\<close>.
\<close>

definition task_assignments :: "yaml \<Rightarrow> exc + yaml" where
  "task_assignments task =
     (case py_get task ''assignments'' (YMap []) of
        Inl e \<Rightarrow> Inl e
      | Inr a \<Rightarrow> Inr (if truthy a then a else YMap []))"

text \<open>The inner loop \<^verbatim>\<open>for role in roles\<close>: one value for each role, in order.\<close>

fun role_cells :: "yaml \<Rightarrow> string list \<Rightarrow> exc + yaml list" where
  "role_cells assignments [] = Inr []"
| "role_cells assignments (role # roles) =
     (case py_get assignments role (YStr []) of
        Inl e \<Rightarrow> Inl e
      | Inr value' \<Rightarrow>
         (case role_cells assignments roles of
            Inl e \<Rightarrow> Inl e
          | Inr cells \<Rightarrow> Inr (value' # cells)))"

text \<open>\<open>row_values\<close> of one task: its name, then the values of the roles.\<close>

definition task_row :: "(yaml \<Rightarrow> string) \<Rightarrow> string list \<Rightarrow> yaml \<Rightarrow> exc + yaml list" where
  "task_row py_str roles task =
     (case py_get task ''name'' (YStr []) of
        Inl e \<Rightarrow> Inl e
      | Inr n \<Rightarrow>
         (case task_assignments task of
            Inl e \<Rightarrow> Inl e
          | Inr assignments \<Rightarrow>
             (case role_cells assignments roles of
                Inl e \<Rightarrow> Inl e
              | Inr cells \<Rightarrow> Inr (YStr (py_str n) # cells))))"

text \<open>
  The spreadsheet library is the parameter \<open>bind_value\<close>: for a value handed to
  \<^verbatim>\<open>ws.append\<close>, the value that the new cell stores, or the exception that the library
  raises for it (\<^verbatim>\<open>ValueError\<close> for a list or a dict, \<^verbatim>\<open>IllegalCharacterError\<close> for a
  str with control characters). \<^verbatim>\<open>ws.append(row)\<close> makes the cells of a row from left to
  right.
\<close>

fun ws_append :: "(yaml \<Rightarrow> exc + yaml) \<Rightarrow> yaml list \<Rightarrow> exc + yaml list" where
  "ws_append bind_value [] = Inr []"
| "ws_append bind_value (content # rest) =
     (case bind_value content of
        Inl e \<Rightarrow> Inl e
      | Inr v \<Rightarrow>
         (case ws_append bind_value rest of
            Inl e \<Rightarrow> Inl e
          | Inr vs \<Rightarrow> Inr (v # vs)))"

text \<open>
  The loop \<^verbatim>\<open>for task in tasks\<close>: the row of each task is computed and appended before
  the next task is looked at. The result is what the worksheet stores, row by row.
\<close>

fun task_rows ::
  "(yaml \<Rightarrow> exc + yaml) \<Rightarrow> (yaml \<Rightarrow> string) \<Rightarrow> string list \<Rightarrow> yaml list \<Rightarrow> exc + yaml list list"
  where
  "task_rows bind_value py_str roles [] = Inr []"
| "task_rows bind_value py_str roles (task # tasks) =
     (case task_row py_str roles task of
        Inl e \<Rightarrow> Inl e
      | Inr row_values \<Rightarrow>
         (case ws_append bind_value row_values of
            Inl e \<Rightarrow> Inl e
          | Inr row \<Rightarrow>
             (case task_rows bind_value py_str roles tasks of
                Inl e \<Rightarrow> Inl e
              | Inr rows' \<Rightarrow> Inr (row # rows'))))"

text \<open>
  The styling loop over \<^verbatim>\<open>ws.iter_rows(min_row=2, min_col=2)\<close>. For each cell,
  \<^verbatim>\<open>(cell.value or "").strip().upper()\<close> raises \<^verbatim>\<open>AttributeError\<close> when the stored value is
  true and not a str; otherwise the code R, A, C or I chooses the fill colour, and R and
  A a bold font. The cells of the first column keep their default style.
\<close>

record cell =
  cell_value :: yaml
  cell_fill :: "string option"
  cell_bold :: bool

definition style_cell :: "yaml \<Rightarrow> exc + cell" where
  "style_cell v =
     (case (if truthy v then v else YStr []) of
        YStr s \<Rightarrow>
          let value' = upper (strip s) in
          Inr \<lparr>cell_value = v,
               cell_fill =
                 (if value' = ''R'' then Some ''C6EFCE''
                  else if value' = ''A'' then Some ''FFC7CE''
                  else if value' = ''C'' then Some ''FFEB9C''
                  else if value' = ''I'' then Some ''D9E1F2''
                  else None),
               cell_bold = (value' = ''R'' \<or> value' = ''A'')\<rparr>
      | _ \<Rightarrow> Inl AttributeError)"

fun style_cells :: "yaml list \<Rightarrow> exc + cell list" where
  "style_cells [] = Inr []"
| "style_cells (v # vs) =
     (case style_cell v of
        Inl e \<Rightarrow> Inl e
      | Inr c \<Rightarrow>
         (case style_cells vs of
            Inl e \<Rightarrow> Inl e
          | Inr cs \<Rightarrow> Inr (c # cs)))"

definition style_row :: "yaml list \<Rightarrow> exc + cell list" where
  "style_row row =
     (case style_cells (drop 1 row) of
        Inl e \<Rightarrow> Inl e
      | Inr cs \<Rightarrow>
          Inr (map (\<lambda>v. \<lparr>cell_value = v, cell_fill = None, cell_bold = False\<rparr>) (take 1 row) @ cs))"

fun style_rows :: "yaml list list \<Rightarrow> exc + cell list list" where
  "style_rows [] = Inr []"
| "style_rows (row # rows') =
     (case style_row row of
        Inl e \<Rightarrow> Inl e
      | Inr cs \<Rightarrow>
         (case style_rows rows' of
            Inl e \<Rightarrow> Inl e
          | Inr css \<Rightarrow> Inr (cs # css)))"

text \<open>
  The worksheet that \<^verbatim>\<open>wb.save\<close> writes: the stored header row and the styled task rows.
  The style of the header and the column widths cannot raise (the width loop catches
  its exceptions) and are left out, as are failures of the file system in \<^verbatim>\<open>wb.save\<close>.
\<close>

record worksheet =
  header :: "yaml list"
  task_cells :: "cell list list"

definition build_raci_excel ::
  "(yaml \<Rightarrow> exc + yaml) \<Rightarrow> (yaml \<Rightarrow> string) \<Rightarrow> yaml \<Rightarrow> exc + worksheet" where
  "build_raci_excel bind_value py_str data =
     (case py_get data ''roles'' (YList []) of
        Inl e \<Rightarrow> Inl e
      | Inr rs \<Rightarrow>
         (case py_iter rs of
            Inl e \<Rightarrow> Inl e
          | Inr rs' \<Rightarrow>
             let roles = map py_str rs' in
             (case py_get data ''tasks'' (YList []) of
                Inl e \<Rightarrow> Inl e
              | Inr ts \<Rightarrow>
                 (case ws_append bind_value (map YStr (''Task / Activity'' # roles)) of
                    Inl e \<Rightarrow> Inl e
                  | Inr header' \<Rightarrow>
                     (case py_iter ts of
                        Inl e \<Rightarrow> Inl e
                      | Inr tasks \<Rightarrow>
                         (case task_rows bind_value py_str roles tasks of
                            Inl e \<Rightarrow> Inl e
                          | Inr rows' \<Rightarrow>
                             (case style_rows rows' of
                                Inl e \<Rightarrow> Inl e
                              | Inr cells \<Rightarrow>
                                  Inr \<lparr>header = header', task_cells = cells\<rparr>)))))))"

text \<open>
  \<^verbatim>\<open>main\<close>: the worksheet is built only when \<^verbatim>\<open>load_yaml\<close> returns. \<open>process_end\<close> is
  what the interpreter makes of a run: the exit status and the final content of standard
  error, a traceback being appended for an exception that nothing caught.
\<close>

definition raci_main ::
  "(yaml \<Rightarrow> exc + yaml) \<Rightarrow> (yaml \<Rightarrow> string) \<Rightarrow> string \<Rightarrow> yaml_source input_file \<Rightarrow>
   worksheet run" where
  "raci_main bind_value py_str path p =
     (case load_yaml path p of
        (err, Inl e) \<Rightarrow> (err, Inl e)
      | (err, Inr data) \<Rightarrow> (err, build_raci_excel bind_value py_str data))"

fun process_end :: "'a run \<Rightarrow> nat \<times> string list" where
  "process_end (err, Inr _) = (0, err)"
| "process_end (err, Inl (SystemExit n)) = (n, err)"
| "process_end (err, Inl _) = (1, err @ [''Traceback (most recent call last):''])"

section \<open>Notions used to state the properties\<close>

text \<open>
  A response map as \<^verbatim>\<open>read_responses\<close> returns it: a dict (distinct keys) whose
  question ids and scores are in range.
\<close>

definition valid_responses :: "(int \<times> int) list \<Rightarrow> bool" where
  "valid_responses responses =
     (distinct (map fst responses) \<and>
      list_all (\<lambda>(q, s). MIN_Q_ID \<le> q \<and> q \<le> MAX_Q_ID \<and> MIN_SCORE \<le> s \<and> s \<le> MAX_SCORE)
        responses)"

text \<open>The score a response map gives a question: its entry, or 0 when it has none.\<close>

definition answer :: "(int \<times> int) list \<Rightarrow> int \<Rightarrow> int" where
  "answer responses q = (case map_of responses q of None \<Rightarrow> 0 | Some s \<Rightarrow> s)"

text \<open>The sum of the scores that a response map holds for the questions of category \<open>n\<close>.\<close>

definition cat_sum :: "string \<Rightarrow> (int \<times> int) list \<Rightarrow> int" where
  "cat_sum n rs = sum_list (map snd (filter (\<lambda>(q, s). category_of q = n) rs))"

text \<open>
  A CSV row whose score converts to an integer outside 0 to 3, or whose question id
  converts to an integer outside 1 to 34.
\<close>

definition out_of_range :: "(string \<Rightarrow> int option) \<Rightarrow> csv_row \<Rightarrow> bool" where
  "out_of_range py_int row =
     ((case int_of_field py_int (row_score row) of None \<Rightarrow> False | Some s \<Rightarrow> s < 0 \<or> 3 < s) \<or>
      (case int_of_field py_int (row_question_id row) of
         None \<Rightarrow> False | Some q \<Rightarrow> q < 1 \<or> 34 < q))"

text \<open>A parsed document has the key \<open>k\<close>: it is a mapping and \<open>k\<close> is one of its keys.\<close>

fun has_key :: "yaml \<Rightarrow> string \<Rightarrow> bool" where
  "has_key (YMap kvs) k = (YStr k \<in> fst ` set kvs)"
| "has_key _ k = False"

text \<open>
  A task of the documented shape, \<^verbatim>\<open>{name, description?, assignments: {role: code}}\<close>:
  a mapping whose \<open>assignments\<close>, when present and not empty, is a mapping to strings;
  and the library stores its name and its codes as they are given.
\<close>

fun is_str :: "yaml \<Rightarrow> bool" where
  "is_str (YStr _) = True"
| "is_str _ = False"

definition plain_task :: "(yaml \<Rightarrow> exc + yaml) \<Rightarrow> (yaml \<Rightarrow> string) \<Rightarrow> yaml \<Rightarrow> bool" where
  "plain_task bind_value py_str task =
     (case py_get task ''name'' (YStr []) of
        Inl e \<Rightarrow> False
      | Inr n \<Rightarrow>
          bind_value (YStr (py_str n)) = Inr (YStr (py_str n)) \<and>
          (case task_assignments task of
             Inr (YMap asg) \<Rightarrow> list_all (\<lambda>(k, v). is_str v \<and> bind_value v = Inr v) asg
           | _ \<Rightarrow> False))"

text \<open>
  Instances of the two parameters of the generator, for the examples: a library that
  refuses lists and dicts and stores every other value as given, and a conversion that
  is the identity on strings.
\<close>

definition sample_bind_value :: "yaml \<Rightarrow> exc + yaml" where
  "sample_bind_value v =
     (case v of
        YList _ \<Rightarrow> Inl (LibraryError ''ValueError'')
      | YMap _ \<Rightarrow> Inl (LibraryError ''ValueError'')
      | _ \<Rightarrow> Inr v)"

definition sample_str :: "yaml \<Rightarrow> string" where
  "sample_str y = (case y of YStr s \<Rightarrow> s | _ \<Rightarrow> [])"

section \<open>Readiness scorer: properties\<close>

subsection \<open>The second loop of \<^verbatim>\<open>build_category_scores\<close> in closed form\<close>

lemma update_as_map:
  "distinct (map fst al) \<Longrightarrow> map_of al k = Some v \<Longrightarrow>
   AList.update k (f v) al = map (\<lambda>(n, c). if n = k then (n, f c) else (n, c)) al"
proof (induction al)
  case Nil
  then show ?case by simp
next
  case (Cons a al)
  obtain n c where a: "a = (n, c)" by (cases a)
  show ?case
  proof (cases "n = k")
    case True
    with Cons.prems a have v: "c = v" by simp
    from Cons.prems a True have "k \<notin> fst ` set al" by auto
    then have "map (\<lambda>(n, c). if n = k then (n, f c) else (n, c)) al = al"
      by (induction al) auto
    with a True v show ?thesis by simp
  next
    case False
    with Cons a show ?thesis by simp
  qed
qed

lemma add_scores_as_map:
  "distinct (map fst cats) \<Longrightarrow> \<forall>(q, s) \<in> set rs. category_of q \<in> fst ` set cats \<Longrightarrow>
   add_scores cats rs = Inr (map (\<lambda>(n, c). (n, c\<lparr>total := total c + cat_sum n rs\<rparr>)) cats)"
proof (induction rs arbitrary: cats)
  case Nil
  have "map (\<lambda>(n, c). (n, c\<lparr>total := total c + cat_sum n []\<rparr>)) cats = cats"
    by (induction cats) (auto simp: cat_sum_def)
  then show ?case by simp
next
  case (Cons r rs)
  obtain q s where r: "r = (q, s)" by (cases r)
  let ?k = "category_of q"
  from Cons.prems(2) r have "?k \<in> fst ` set cats" by simp
  then obtain cat where cat: "map_of cats ?k = Some cat"
    by (metis domD dom_map_of_conv_image_fst)
  let ?cats1 = "map (\<lambda>(n, c). if n = ?k then (n, c\<lparr>total := total c + s\<rparr>) else (n, c)) cats"
  have upd: "AList.update ?k (cat\<lparr>total := total cat + s\<rparr>) cats = ?cats1"
    using update_as_map [OF Cons.prems(1) cat, of "\<lambda>c. c\<lparr>total := total c + s\<rparr>"] by simp
  have keys: "map fst ?cats1 = map fst cats" by (induction cats) auto
  have d1: "distinct (map fst ?cats1)" by (simp only: keys Cons.prems(1))
  have k1: "\<forall>(q, s) \<in> set rs. category_of q \<in> fst ` set ?cats1"
  proof -
    have "set (map fst ?cats1) = set (map fst cats)" by (simp only: keys)
    then have "fst ` set ?cats1 = fst ` set cats" by (simp only: set_map)
    with Cons.prems(2) show ?thesis by simp
  qed
  have "add_scores cats (r # rs) = add_scores ?cats1 rs"
    using r cat upd by simp
  also have "\<dots> = Inr (map (\<lambda>(n, c). (n, c\<lparr>total := total c + cat_sum n rs\<rparr>)) ?cats1)"
    by (rule Cons.IH [OF d1 k1])
  also have "map (\<lambda>(n, c). (n, c\<lparr>total := total c + cat_sum n rs\<rparr>)) ?cats1
           = map (\<lambda>(n, c). (n, c\<lparr>total := total c + cat_sum n (r # rs)\<rparr>)) cats"
    using r by (induction cats) (auto simp: cat_sum_def)
  finally show ?case .
qed


subsection \<open>The categories after the first loop, and after both\<close>

lemma init_loop:
  "foldl init_question [] [MIN_Q_ID..MAX_Q_ID] =
    [(''Preparation & Governance'', \<lparr>name = ''Preparation & Governance'', total = 0, max_total = 21, questions = [1, 2, 3, 4, 5, 6, 7]\<rparr>),
     (''Detection & Reporting'', \<lparr>name = ''Detection & Reporting'', total = 0, max_total = 21, questions = [8, 9, 10, 11, 12, 13, 14]\<rparr>),
     (''Containment'', \<lparr>name = ''Containment'', total = 0, max_total = 12, questions = [15, 16, 17, 18]\<rparr>),
     (''Eradication'', \<lparr>name = ''Eradication'', total = 0, max_total = 12, questions = [19, 20, 21, 22]\<rparr>),
     (''Recovery'', \<lparr>name = ''Recovery'', total = 0, max_total = 15, questions = [23, 24, 25, 26, 27]\<rparr>),
     (''Lessons Learned'', \<lparr>name = ''Lessons Learned'', total = 0, max_total = 12, questions = [28, 29, 30, 31]\<rparr>),
     (''Advanced Controls'', \<lparr>name = ''Advanced Controls'', total = 0, max_total = 9, questions = [32, 33, 34]\<rparr>)]"
  by code_simp

lemma category_of_cases:
  "MIN_Q_ID \<le> q \<Longrightarrow> q \<le> MAX_Q_ID \<Longrightarrow>
   category_of q \<in> {''Preparation & Governance'', ''Detection & Reporting'', ''Containment'',
     ''Eradication'', ''Recovery'', ''Lessons Learned'', ''Advanced Controls''}"
  by (simp add: category_of_def CATEGORY_MAP_def MIN_Q_ID_def MAX_Q_ID_def)

lemma build_category_scores_eq:
  assumes "list_all (\<lambda>(q, s). MIN_Q_ID \<le> q \<and> q \<le> MAX_Q_ID) responses"
  shows "build_category_scores responses = Inr
    [(''Preparation & Governance'', \<lparr>name = ''Preparation & Governance'', total = cat_sum ''Preparation & Governance'' responses, max_total = 21, questions = [1, 2, 3, 4, 5, 6, 7]\<rparr>),
     (''Detection & Reporting'', \<lparr>name = ''Detection & Reporting'', total = cat_sum ''Detection & Reporting'' responses, max_total = 21, questions = [8, 9, 10, 11, 12, 13, 14]\<rparr>),
     (''Containment'', \<lparr>name = ''Containment'', total = cat_sum ''Containment'' responses, max_total = 12, questions = [15, 16, 17, 18]\<rparr>),
     (''Eradication'', \<lparr>name = ''Eradication'', total = cat_sum ''Eradication'' responses, max_total = 12, questions = [19, 20, 21, 22]\<rparr>),
     (''Recovery'', \<lparr>name = ''Recovery'', total = cat_sum ''Recovery'' responses, max_total = 15, questions = [23, 24, 25, 26, 27]\<rparr>),
     (''Lessons Learned'', \<lparr>name = ''Lessons Learned'', total = cat_sum ''Lessons Learned'' responses, max_total = 12, questions = [28, 29, 30, 31]\<rparr>),
     (''Advanced Controls'', \<lparr>name = ''Advanced Controls'', total = cat_sum ''Advanced Controls'' responses, max_total = 9, questions = [32, 33, 34]\<rparr>)]"
proof -
  have keys: "\<forall>(q, s) \<in> set responses. category_of q \<in> fst ` set (foldl init_question [] [MIN_Q_ID..MAX_Q_ID])"
    unfolding init_loop using assms category_of_cases
    by (auto simp: list_all_iff)
  have dist: "distinct (map fst (foldl init_question [] [MIN_Q_ID..MAX_Q_ID]))"
    unfolding init_loop by simp
  show ?thesis
    unfolding build_category_scores_def add_scores_as_map [OF dist keys]
    unfolding init_loop by simp
qed

lemma cat_sums_total:
  assumes "list_all (\<lambda>(q, s). MIN_Q_ID \<le> q \<and> q \<le> MAX_Q_ID) responses"
  shows "cat_sum ''Preparation & Governance'' responses + cat_sum ''Detection & Reporting'' responses
       + cat_sum ''Containment'' responses + cat_sum ''Eradication'' responses
       + cat_sum ''Recovery'' responses + cat_sum ''Lessons Learned'' responses
       + cat_sum ''Advanced Controls'' responses = sum_list (map snd responses)"
  using assms
proof (induction responses)
  case Nil
  then show ?case by (simp add: cat_sum_def)
next
  case (Cons r rs)
  obtain q s where r: "r = (q, s)" by (cases r)
  from Cons.prems r have "MIN_Q_ID \<le> q" "q \<le> MAX_Q_ID" by simp_all
  from category_of_cases [OF this] Cons r show ?case
    by (auto simp: cat_sum_def)
qed


subsection \<open>Category totals as sums of answers\<close>

lemma answer_Cons: "answer ((q, s) # rs) q' = (if q' = q then s else answer rs q')"
  by (simp add: answer_def)

lemma answer_absent:
  assumes "q \<notin> fst ` set rs"
  shows "answer rs q = 0"
proof -
  from assms have "map_of rs q = None" by (simp add: map_of_eq_None_iff)
  then show ?thesis by (simp add: answer_def)
qed

lemma sum_list_single:
  "distinct qs \<Longrightarrow> q \<in> set qs \<Longrightarrow>
   sum_list (map (\<lambda>q'. if q' = q then s else f q') qs) = (s::int) + sum_list (map f qs) - f q"
  by (induction qs) (auto intro!: arg_cong [where f = sum_list] map_cong)

lemma cat_sum_answers:
  assumes "distinct (map fst rs)" and "distinct qs"
    and "\<forall>(q, s) \<in> set rs. category_of q = n \<longleftrightarrow> q \<in> set qs"
  shows "cat_sum n rs = sum_list (map (answer rs) qs)"
  using assms
proof (induction rs)
  case Nil
  then show ?case by (simp add: cat_sum_def answer_def)
next
  case (Cons r rs)
  obtain q s where r: "r = (q, s)" by (cases r)
  from Cons.prems r have absent: "q \<notin> fst ` set rs" by auto
  from Cons r have IH: "cat_sum n rs = sum_list (map (answer rs) qs)" by simp
  show ?case
  proof (cases "q \<in> set qs")
    case True
    with Cons.prems(3) r have "category_of q = n" by simp
    then have "cat_sum n (r # rs) = s + cat_sum n rs" by (simp add: cat_sum_def r)
    moreover have "sum_list (map (answer (r # rs)) qs) = s + sum_list (map (answer rs) qs) - answer rs q"
      using sum_list_single [OF Cons.prems(2) True, of s "answer rs"]
      by (simp add: r answer_Cons [abs_def])
    ultimately show ?thesis using IH answer_absent [OF absent] by simp
  next
    case False
    with Cons.prems(3) r have "category_of q \<noteq> n" by simp
    then have a: "cat_sum n (r # rs) = cat_sum n rs" by (simp add: cat_sum_def r)
    have b: "map (answer (r # rs)) qs = map (answer rs) qs"
      using False by (intro map_cong) (auto simp: r answer_Cons)
    show ?thesis unfolding a b by (rule IH)
  qed
qed

lemma category_questions:
  assumes "MIN_Q_ID \<le> q" and "q \<le> MAX_Q_ID"
  shows "category_of q = ''Preparation & Governance'' \<longleftrightarrow> q \<in> set [1, 2, 3, 4, 5, 6, 7]"
    and "category_of q = ''Detection & Reporting'' \<longleftrightarrow> q \<in> set [8, 9, 10, 11, 12, 13, 14]"
    and "category_of q = ''Containment'' \<longleftrightarrow> q \<in> set [15, 16, 17, 18]"
    and "category_of q = ''Eradication'' \<longleftrightarrow> q \<in> set [19, 20, 21, 22]"
    and "category_of q = ''Recovery'' \<longleftrightarrow> q \<in> set [23, 24, 25, 26, 27]"
    and "category_of q = ''Lessons Learned'' \<longleftrightarrow> q \<in> set [28, 29, 30, 31]"
    and "category_of q = ''Advanced Controls'' \<longleftrightarrow> q \<in> set [32, 33, 34]"
  using assms
  by (auto simp: category_of_def CATEGORY_MAP_def MIN_Q_ID_def MAX_Q_ID_def)


lemma cat_sum_questions:
  assumes "valid_responses responses"
  shows "cat_sum ''Preparation & Governance'' responses = sum_list (map (answer responses) [1, 2, 3, 4, 5, 6, 7])"
    and "cat_sum ''Detection & Reporting'' responses = sum_list (map (answer responses) [8, 9, 10, 11, 12, 13, 14])"
    and "cat_sum ''Containment'' responses = sum_list (map (answer responses) [15, 16, 17, 18])"
    and "cat_sum ''Eradication'' responses = sum_list (map (answer responses) [19, 20, 21, 22])"
    and "cat_sum ''Recovery'' responses = sum_list (map (answer responses) [23, 24, 25, 26, 27])"
    and "cat_sum ''Lessons Learned'' responses = sum_list (map (answer responses) [28, 29, 30, 31])"
    and "cat_sum ''Advanced Controls'' responses = sum_list (map (answer responses) [32, 33, 34])"
proof -
  from assms have d: "distinct (map fst responses)"
    and r: "\<And>q s. (q, s) \<in> set responses \<Longrightarrow> MIN_Q_ID \<le> q \<and> q \<le> MAX_Q_ID"
    by (auto simp: valid_responses_def list_all_iff)
  show "cat_sum ''Preparation & Governance'' responses = sum_list (map (answer responses) [1, 2, 3, 4, 5, 6, 7])"
    by (rule cat_sum_answers [OF d]) (use r category_questions(1) in auto)
  show "cat_sum ''Detection & Reporting'' responses = sum_list (map (answer responses) [8, 9, 10, 11, 12, 13, 14])"
    by (rule cat_sum_answers [OF d]) (use r category_questions(2) in auto)
  show "cat_sum ''Containment'' responses = sum_list (map (answer responses) [15, 16, 17, 18])"
    by (rule cat_sum_answers [OF d]) (use r category_questions(3) in auto)
  show "cat_sum ''Eradication'' responses = sum_list (map (answer responses) [19, 20, 21, 22])"
    by (rule cat_sum_answers [OF d]) (use r category_questions(4) in auto)
  show "cat_sum ''Recovery'' responses = sum_list (map (answer responses) [23, 24, 25, 26, 27])"
    by (rule cat_sum_answers [OF d]) (use r category_questions(5) in auto)
  show "cat_sum ''Lessons Learned'' responses = sum_list (map (answer responses) [28, 29, 30, 31])"
    by (rule cat_sum_answers [OF d]) (use r category_questions(6) in auto)
  show "cat_sum ''Advanced Controls'' responses = sum_list (map (answer responses) [32, 33, 34])"
    by (rule cat_sum_answers [OF d]) (use r category_questions(7) in auto)
qed

text \<open>
  Claim C10. For every valid response map, building the category scores succeeds and the
  overall maximum is 102, whatever questions the map answers: the seven categories hold
  the questions 1 to 34 once each, every question adds \<open>MAX_SCORE = 3\<close> to the maximum
  of its category, and the total of a category is the sum over its questions of the
  answer given, a question absent from the map counting 0.
\<close>

theorem overall_max_total_is_102:
  assumes "valid_responses responses"
  shows "\<exists>categories. build_category_scores responses = Inr categories \<and>
           fst (snd (compute_overall_score categories)) = 102 \<and>
           concat (map (\<lambda>(n, c). questions c) categories) = [1..34] \<and>
           (\<forall>(n, c) \<in> set categories.
               (\<forall>q \<in> set (questions c). category_of q = n) \<and>
               max_total c = MAX_SCORE * int (length (questions c)) \<and>
               total c = (\<Sum>q\<leftarrow>questions c. answer responses q))"
proof -
  from assms have range: "list_all (\<lambda>(q, s). MIN_Q_ID \<le> q \<and> q \<le> MAX_Q_ID) responses"
    by (auto simp: valid_responses_def list_all_iff)
  note eq = build_category_scores_eq [OF range]
  have up: "[1..34] = [1, 2, 3, 4, 5, 6, 7, 8, 9, 10, 11, 12, 13, 14, 15, 16, 17, 18, 19, 20, 21, 22, 23, 24, 25, 26, 27, 28, 29, 30, 31, 32, 33, 34::int]"
    by code_simp
  show ?thesis
    unfolding eq up
    apply (intro exI conjI)
       apply (rule refl)
      apply (simp add: compute_overall_score_def)
     apply simp
    apply (simp add: MAX_SCORE_def cat_sum_questions [OF assms] category_of_def CATEGORY_MAP_def)
    done
qed


subsection \<open>All questions answered alike\<close>

lemma overall_score_eq:
  assumes "list_all (\<lambda>(q, s). MIN_Q_ID \<le> q \<and> q \<le> MAX_Q_ID) responses"
  shows "\<exists>categories. build_category_scores responses = Inr categories \<and>
           compute_overall_score categories =
             (sum_list (map snd responses), 102,
              py_round1 (of_int (sum_list (map snd responses)) / 102 * 30))"
proof -
  note eq = build_category_scores_eq [OF assms]
  have "sum_list (map (\<lambda>(n, cat). total cat) (projr (build_category_scores responses)))
        = sum_list (map snd responses)"
    unfolding eq using cat_sums_total [OF assms] by simp
  moreover have "sum_list (map (\<lambda>(n, cat). max_total cat) (projr (build_category_scores responses))) = 102"
    unfolding eq by simp
  ultimately have "compute_overall_score (projr (build_category_scores responses)) =
             (sum_list (map snd responses), 102,
              py_round1 (of_int (sum_list (map snd responses)) / 102 * 30))"
    by (simp add: compute_overall_score_def Let_def)
  moreover have "build_category_scores responses = Inr (projr (build_category_scores responses))"
    unfolding eq by simp
  ultimately show ?thesis by blast
qed

lemma sum_list_const: "\<forall>(q, s) \<in> set rs. s = k \<Longrightarrow> sum_list (map snd rs) = k * int (length rs)"
  by (induction rs) (auto simp: algebra_simps)

lemma all_questions_length:
  assumes "distinct (map fst responses)" and "set (map fst responses) = set [MIN_Q_ID..MAX_Q_ID]"
  shows "length responses = 34"
proof -
  have "length responses = length (map fst responses)" by simp
  also have "\<dots> = card (set (map fst responses))" using assms(1) by (simp only: distinct_card)
  also have "\<dots> = card (set [MIN_Q_ID..MAX_Q_ID])" by (simp only: assms(2))
  also have "\<dots> = 34" by (simp add: MIN_Q_ID_def MAX_Q_ID_def)
  finally show ?thesis .
qed

text \<open>
  Claim C1. For a response map that holds all 34 question ids: when every score is 3 the
  normalised score is 30.0 and the maturity is "Advanced"; when every score is 0 the
  normalised score is 0.0 and the maturity is "Initial". At both inputs the quotient and
  the product are exact in binary floating point too (1.0 * 30 and 0.0 * 30).
\<close>

theorem all_threes_advanced_all_zeros_initial:
  assumes "distinct (map fst responses)" and "set (map fst responses) = set [MIN_Q_ID..MAX_Q_ID]"
  shows "((\<forall>(q, s) \<in> set responses. s = 3) \<longrightarrow>
            (\<exists>categories. build_category_scores responses = Inr categories \<and>
               snd (snd (compute_overall_score categories)) = 30 \<and>
               classify_maturity (snd (snd (compute_overall_score categories))) = ''Advanced'')) \<and>
         ((\<forall>(q, s) \<in> set responses. s = 0) \<longrightarrow>
            (\<exists>categories. build_category_scores responses = Inr categories \<and>
               snd (snd (compute_overall_score categories)) = 0 \<and>
               classify_maturity (snd (snd (compute_overall_score categories))) = ''Initial''))"
proof -
  have "\<And>q s. (q, s) \<in> set responses \<Longrightarrow> q \<in> set [MIN_Q_ID..MAX_Q_ID]"
    using assms(2) by (metis fst_conv image_eqI set_map)
  then have range: "list_all (\<lambda>(q, s). MIN_Q_ID \<le> q \<and> q \<le> MAX_Q_ID) responses"
    by (auto simp: list_all_iff)
  from overall_score_eq [OF range] obtain categories where
    b: "build_category_scores responses = Inr categories" and
    c: "compute_overall_score categories =
          (sum_list (map snd responses), 102,
           py_round1 (of_int (sum_list (map snd responses)) / 102 * 30))"
    by blast
  note len = all_questions_length [OF assms]
  have three: "py_round1 (102 / 102 * 30) = 30" by (simp add: py_round1_def)
  have zero: "py_round1 (0 / 102 * 30) = 0" by (simp add: py_round1_def)
  show ?thesis
  proof (intro conjI impI)
    assume "\<forall>(q, s) \<in> set responses. s = 3"
    from sum_list_const [OF this] len have "sum_list (map snd responses) = 102" by simp
    with c three have "snd (snd (compute_overall_score categories)) = 30" by simp
    with b show "\<exists>categories. build_category_scores responses = Inr categories \<and>
               snd (snd (compute_overall_score categories)) = 30 \<and>
               classify_maturity (snd (snd (compute_overall_score categories))) = ''Advanced''"
      by (auto simp: classify_maturity_def)
  next
    assume "\<forall>(q, s) \<in> set responses. s = 0"
    from sum_list_const [OF this] have "sum_list (map snd responses) = 0" by simp
    with c zero have "snd (snd (compute_overall_score categories)) = 0" by simp
    with b show "\<exists>categories. build_category_scores responses = Inr categories \<and>
               snd (snd (compute_overall_score categories)) = 0 \<and>
               classify_maturity (snd (snd (compute_overall_score categories))) = ''Initial''"
      by (auto simp: classify_maturity_def)
  qed
qed

subsection \<open>Validation of the rows\<close>

lemma read_rows_rejects:
  "row \<in> set rs \<Longrightarrow> out_of_range py_int row \<Longrightarrow> \<exists>m. read_rows py_int scores rs = Inl (ValueError m)"
proof (induction rs arbitrary: scores)
  case Nil
  then show ?case by simp
next
  case (Cons r rs)
  show ?case
  proof (cases "row = r")
    case True
    with Cons.prems(2) show ?thesis
      by (auto simp: out_of_range_def MIN_Q_ID_def MAX_Q_ID_def MIN_SCORE_def MAX_SCORE_def
               split: option.splits)
  next
    case False
    with Cons.prems have "row \<in> set rs" by simp
    from Cons.IH [OF this Cons.prems(2)] show ?thesis
      by (auto split: option.splits)
  qed
qed

text \<open>
  Claim C4. If any row of the CSV file has a score outside 0 to 3 or a question id
  outside 1 to 34, \<^verbatim>\<open>read_responses\<close> raises \<^verbatim>\<open>ValueError\<close>: it returns no score map, and
  the scorer, which does not catch the exception, ends with a status other than 0.
\<close>

theorem out_of_range_row_aborts:
  assumes "row \<in> set (rows f)" and "out_of_range py_int row"
  shows "(\<exists>m. read_responses py_int (File f) = Inl (ValueError m)) \<and>
         (\<forall>scores. read_responses py_int (File f) \<noteq> Inr scores) \<and>
         exit_status (scorer_main py_int (File f)) \<noteq> 0"
proof -
  from read_rows_rejects [OF assms] obtain m where "read_rows py_int [] (rows f) = Inl (ValueError m)"
    by blast
  then have "\<exists>m. read_responses py_int (File f) = Inl (ValueError m)"
    by (simp add: read_responses_def)
  then show ?thesis by (auto simp: scorer_main_def)
qed

text \<open>What \<^verbatim>\<open>read_responses\<close> returns is a valid response map, and not empty.\<close>

lemma list_all_update:
  "list_all P al \<Longrightarrow> P (k, v) \<Longrightarrow> list_all P (AList.update k v al)"
  by (induction al) auto

lemma read_rows_valid:
  "valid_responses scores \<Longrightarrow> read_rows py_int scores rs = Inr responses \<Longrightarrow> valid_responses responses"
proof (induction rs arbitrary: scores)
  case Nil
  then show ?case by simp
next
  case (Cons r rs)
  from Cons.prems(2) obtain q s where
    ok: "MIN_Q_ID \<le> q" "q \<le> MAX_Q_ID" "MIN_SCORE \<le> s" "s \<le> MAX_SCORE" and
    rest: "read_rows py_int (AList.update q s scores) rs = Inr responses"
    by (fastforce simp: not_less split: option.splits if_splits)
  have "valid_responses (AList.update q s scores)"
    using Cons.prems(1) ok
    by (simp add: valid_responses_def distinct_update list_all_update)
  from Cons.IH [OF this rest] show ?case .
qed

lemma read_responses_valid:
  "read_responses py_int path = Inr responses \<Longrightarrow> valid_responses responses \<and> responses \<noteq> []"
proof -
  assume a: "read_responses py_int path = Inr responses"
  then obtain f where "path = File f" by (cases path) (auto simp: read_responses_def)
  with a have "read_rows py_int [] (rows f) = Inr responses" and "responses \<noteq> []"
    by (auto simp: read_responses_def Let_def split: if_splits sum.splits)
  moreover have "valid_responses []" by (simp add: valid_responses_def)
  ultimately show ?thesis using read_rows_valid by blast
qed


text \<open>Questions 1 to 34 in order, all scored 3 and all scored 0.\<close>

theorem all_threes_advanced_all_zeros_initial_witness:
  "(\<exists>categories. build_category_scores (map (\<lambda>q. (q, 3)) [1..34]) = Inr categories \<and>
      snd (snd (compute_overall_score categories)) = 30 \<and>
      classify_maturity (snd (snd (compute_overall_score categories))) = ''Advanced'') \<and>
   (\<exists>categories. build_category_scores (map (\<lambda>q. (q, 0)) [1..34]) = Inr categories \<and>
      snd (snd (compute_overall_score categories)) = 0 \<and>
      classify_maturity (snd (snd (compute_overall_score categories))) = ''Initial'')"
proof -
  have keys: "map fst (map (\<lambda>q. (q, k)) [1..34]) = [MIN_Q_ID..MAX_Q_ID]" for k :: int
    by (simp add: comp_def MIN_Q_ID_def MAX_Q_ID_def)
  have d: "distinct (map fst (map (\<lambda>q. (q, k)) [1..34]))" for k :: int
    unfolding keys by simp
  have s: "set (map fst (map (\<lambda>q. (q, k)) [1..34])) = set [MIN_Q_ID..MAX_Q_ID]" for k :: int
    unfolding keys by simp
  have a: "\<forall>(q, s) \<in> set (map (\<lambda>q. (q, k)) [1..34]). s = k" for k :: int
    by auto
  from all_threes_advanced_all_zeros_initial [OF d s, of 3] a [of 3]
       all_threes_advanced_all_zeros_initial [OF d s, of 0] a [of 0]
  show ?thesis by blast
qed

text \<open>The response map that answers question 5 with 2 and question 34 with 3.\<close>

theorem overall_max_total_is_102_witness:
  "valid_responses [(5, 2), (34, 3)] \<and>
   (\<exists>categories. build_category_scores [(5, 2), (34, 3)] = Inr categories \<and>
      fst (snd (compute_overall_score categories)) = 102 \<and>
      concat (map (\<lambda>(n, c). questions c) categories) = [1..34])"
proof -
  have v: "valid_responses [(5, 2), (34, 3)]"
    by (simp add: valid_responses_def MIN_Q_ID_def MAX_Q_ID_def MIN_SCORE_def MAX_SCORE_def)
  from overall_max_total_is_102 [OF v] v show ?thesis by blast
qed

text \<open>A file whose second row has the score 4.\<close>

theorem out_of_range_row_aborts_witness:
  "(\<exists>m. read_responses (map_of [(''1'', 1), (''2'', 2), (''4'', 4), (''40'', 40)])
          (File \<lparr>fieldnames = Some [''question_id'', ''score''],
                 rows = [\<lparr>row_question_id = Some ''1'', row_score = Some ''2''\<rparr>,
                         \<lparr>row_question_id = Some ''2'', row_score = Some ''4''\<rparr>]\<rparr>)
        = Inl (ValueError m)) \<and>
   exit_status (scorer_main (map_of [(''1'', 1), (''2'', 2), (''4'', 4), (''40'', 40)])
          (File \<lparr>fieldnames = Some [''question_id'', ''score''],
                 rows = [\<lparr>row_question_id = Some ''1'', row_score = Some ''2''\<rparr>,
                         \<lparr>row_question_id = Some ''2'', row_score = Some ''4''\<rparr>]\<rparr>)) \<noteq> 0"
proof -
  let ?py_int = "map_of [(''1'', 1), (''2'', 2), (''4'', 4), (''40'', 40::int)]"
  let ?bad = "\<lparr>row_question_id = Some ''2'', row_score = Some ''4''\<rparr>"
  let ?f = "\<lparr>fieldnames = Some [''question_id'', ''score''],
             rows = [\<lparr>row_question_id = Some ''1'', row_score = Some ''2''\<rparr>, ?bad]\<rparr>"
  have m: "?bad \<in> set (rows ?f)" by simp
  have b: "out_of_range ?py_int ?bad" by (simp add: out_of_range_def int_of_field_def)
  from out_of_range_row_aborts [OF m b] show ?thesis by blast
qed

section \<open>Email posture checker: properties\<close>

subsection \<open>The version test of the DKIM loop\<close>

text \<open>
  \<^verbatim>\<open>rec.upper()\<close> holds no lower-case letter, and the literal \<^verbatim>\<open>"v=DKIM1"\<close> begins with
  one: the test of the loop fails for every record, and the loop always runs to its end.
\<close>

lemma contains_subset: "contains sub s \<Longrightarrow> set sub \<subseteq> set s"
proof (induction s)
  case Nil
  then show ?case by simp
next
  case (Cons c cs)
  from Cons.prems have "startswith (c # cs) sub \<or> contains sub cs" by simp
  then show ?case
  proof
    assume "startswith (c # cs) sub"
    then have "sub = take (length sub) (c # cs)" by (simp add: startswith_def)
    then have "set sub \<subseteq> set (c # cs)" by (metis set_take_subset)
    then show ?thesis .
  next
    assume "contains sub cs"
    with Cons.IH show ?thesis by auto
  qed
qed

lemma upper_char_not_v: "upper_char c \<noteq> CHR ''v''"
  by (simp add: upper_char_def)

lemma upper_has_no_v: "CHR ''v'' \<notin> set (upper s)"
proof
  assume "CHR ''v'' \<in> set (upper s)"
  then obtain c where "upper_char c = CHR ''v''" by (auto simp: upper_def)
  with upper_char_not_v show False by blast
qed

lemma dkim_test_never_holds: "\<not> contains ''v=DKIM1'' (upper rec)"
proof
  assume "contains ''v=DKIM1'' (upper rec)"
  from contains_subset [OF this] have "CHR ''v'' \<in> set (upper rec)" by simp
  with upper_has_no_v show False by blast
qed

lemma first_dkim_None: "first_dkim txt_records = None"
  by (induction txt_records) (simp_all add: dkim_test_never_holds)

subsection \<open>The first matching record\<close>

text \<open>
  \<^verbatim>\<open>get_spf_record\<close> and \<^verbatim>\<open>get_dmarc_record\<close> return the record at the least index whose
  lower-cased text starts with the version prefix, and \<open>None\<close> exactly when no record
  does.
\<close>

lemma first_spf_find: "first_spf txt_records = find (\<lambda>r. startswith (lower r) ''v=spf1'') txt_records"
  by (induction txt_records) simp_all

lemma first_dmarc_find:
  "first_dmarc txt_records = find (\<lambda>r. startswith (lower r) ''v=dmarc1'') txt_records"
  by (induction txt_records) simp_all

lemma get_spf_record_first_match:
  "get_spf_record resolve domain = Some r \<longleftrightarrow>
     (\<exists>i < length (lookup_txt_records resolve domain).
        lookup_txt_records resolve domain ! i = r \<and> startswith (lower r) ''v=spf1'' \<and>
        (\<forall>j < i. \<not> startswith (lower (lookup_txt_records resolve domain ! j)) ''v=spf1''))"
  unfolding get_spf_record_def first_spf_find find_Some_iff by blast

lemma get_spf_record_no_match:
  "get_spf_record resolve domain = None \<longleftrightarrow>
     (\<forall>r \<in> set (lookup_txt_records resolve domain). \<not> startswith (lower r) ''v=spf1'')"
  unfolding get_spf_record_def first_spf_find find_None_iff by blast

lemma get_dmarc_record_first_match:
  "get_dmarc_record resolve domain = Some r \<longleftrightarrow>
     (\<exists>i < length (lookup_txt_records resolve (''_dmarc.'' @ domain)).
        lookup_txt_records resolve (''_dmarc.'' @ domain) ! i = r \<and>
        startswith (lower r) ''v=dmarc1'' \<and>
        (\<forall>j < i. \<not> startswith (lower (lookup_txt_records resolve (''_dmarc.'' @ domain) ! j))
                     ''v=dmarc1''))"
  unfolding get_dmarc_record_def first_dmarc_find find_Some_iff by blast

lemma get_dmarc_record_no_match:
  "get_dmarc_record resolve domain = None \<longleftrightarrow>
     (\<forall>r \<in> set (lookup_txt_records resolve (''_dmarc.'' @ domain)).
        \<not> startswith (lower r) ''v=dmarc1'')"
  unfolding get_dmarc_record_def first_dmarc_find find_None_iff by blast

text \<open>With a selector and a non-empty answer, \<^verbatim>\<open>get_dkim_record\<close> returns the first record.\<close>

lemma get_dkim_record_first:
  assumes "sel \<noteq> []" and "lookup_txt_records resolve (sel @ ''._domainkey.'' @ domain) = first # rest"
  shows "get_dkim_record resolve domain (Some sel) = (True, sel, True, first)"
  using assms by (simp add: get_dkim_record_def first_dkim_None)

text \<open>
  Claim C2. The first TXT record matching the version prefix is taken as the record:
  \<^verbatim>\<open>get_spf_record\<close> and \<^verbatim>\<open>get_dmarc_record\<close> do so (\<open>get_spf_record_first_match\<close>,
  \<open>get_spf_record_no_match\<close>, \<open>get_dmarc_record_first_match\<close>,
  \<open>get_dmarc_record_no_match\<close>). The DKIM lookup does not: for the answer
  \<^verbatim>\<open>["google-site-verification=abc", "v=DKIM1; k=rsa; p=MIGf"]\<close> it returns the first
  record, which has no version tag, and not the second, which has it.
\<close>

theorem dkim_version_tag_not_selected:
  "get_dkim_record (\<lambda>n. Inr [''google-site-verification=abc'', ''v=DKIM1; k=rsa; p=MIGf''])
     ''example.com'' (Some ''default'')
   = (True, ''default'', True, ''google-site-verification=abc'')"
  by code_simp

text \<open>
  Claim C7. With a selector, when the TXT records at \<^verbatim>\<open>selector._domainkey.domain\<close> are
  a non-empty list in which no record contains the tag \<^verbatim>\<open>v=DKIM1\<close>, \<^verbatim>\<open>get_dkim_record\<close>
  reports DKIM as checked and present and returns the first record of the list.
\<close>

theorem dkim_fallback_first_record:
  assumes "sel \<noteq> []"
    and "lookup_txt_records resolve (sel @ ''._domainkey.'' @ domain) = first # rest"
    and "\<forall>rec \<in> set (first # rest). \<not> contains ''v=DKIM1'' rec"
  shows "get_dkim_record resolve domain (Some sel) = (True, sel, True, first)"
  using assms(1,2) by (rule get_dkim_record_first)

text \<open>Two records without the tag at \<^verbatim>\<open>default._domainkey.example.com\<close>.\<close>

theorem dkim_fallback_first_record_witness:
  "lookup_txt_records (\<lambda>n. Inr [''k=rsa; p=MIGf'', ''other''])
     (''default'' @ ''._domainkey.'' @ ''example.com'') = [''k=rsa; p=MIGf'', ''other''] \<and>
   \<not> contains ''v=DKIM1'' ''k=rsa; p=MIGf'' \<and> \<not> contains ''v=DKIM1'' ''other'' \<and>
   get_dkim_record (\<lambda>n. Inr [''k=rsa; p=MIGf'', ''other'']) ''example.com'' (Some ''default'')
     = (True, ''default'', True, ''k=rsa; p=MIGf'')"
proof -
  have n: "''default'' \<noteq> []" by simp
  have l: "lookup_txt_records (\<lambda>n. Inr [''k=rsa; p=MIGf'', ''other''])
             (''default'' @ ''._domainkey.'' @ ''example.com'') = [''k=rsa; p=MIGf'', ''other'']"
    by code_simp
  have c1: "\<not> contains ''v=DKIM1'' ''k=rsa; p=MIGf''" by code_simp
  have c2: "\<not> contains ''v=DKIM1'' ''other''" by code_simp
  from c1 c2 have c: "\<forall>rec \<in> set [''k=rsa; p=MIGf'', ''other'']. \<not> contains ''v=DKIM1'' rec"
    by simp
  from dkim_fallback_first_record [OF n l c] l c1 c2 show ?thesis by blast
qed

subsection \<open>Failed lookups\<close>

text \<open>
  Claim C3. If the TXT lookup of a name raises (NXDOMAIN, NoAnswer, NoNameservers or any
  other exception), \<^verbatim>\<open>lookup_txt_records\<close> returns the empty list, and the checker
  reports no record for that name: no SPF record when the name is the domain, no DMARC
  record when it is \<^verbatim>\<open>_dmarc.domain\<close>, no DKIM record when it is
  \<^verbatim>\<open>selector._domainkey.domain\<close>.
\<close>

theorem lookup_failure_is_no_record:
  assumes "resolve n = Inl e"
  shows "lookup_txt_records resolve n = [] \<and>
         (\<forall>domain. n = domain \<longrightarrow>
            get_spf_record resolve domain = None \<and>
            assess_spf (get_spf_record resolve domain) = (False, [], ''No SPF record found.'')) \<and>
         (\<forall>domain. n = ''_dmarc.'' @ domain \<longrightarrow>
            get_dmarc_record resolve domain = None \<and>
            assess_dmarc (get_dmarc_record resolve domain)
              = (False, [], [], ''No DMARC record found.'')) \<and>
         (\<forall>domain sel. sel \<noteq> [] \<and> n = sel @ ''._domainkey.'' @ domain \<longrightarrow>
            get_dkim_record resolve domain (Some sel) = (True, sel, False, []))"
proof -
  from assms have l: "lookup_txt_records resolve n = []"
    by (cases e) (simp_all add: lookup_txt_records_def)
  then show ?thesis
    by (auto simp: get_spf_record_def get_dmarc_record_def get_dkim_record_def
                   assess_spf_def assess_dmarc_def)
qed

text \<open>A resolver that answers NXDOMAIN.\<close>

theorem lookup_failure_is_no_record_witness:
  "lookup_txt_records (\<lambda>n. Inl NXDOMAIN) ''example.com'' = [] \<and>
   get_spf_record (\<lambda>n. Inl NXDOMAIN) ''example.com'' = None \<and>
   assess_spf (get_spf_record (\<lambda>n. Inl NXDOMAIN) ''example.com'')
     = (False, [], ''No SPF record found.'')"
proof -
  have "(\<lambda>n::string. Inl NXDOMAIN :: dns_exception + string list) ''example.com'' = Inl NXDOMAIN"
    by simp
  from lookup_failure_is_no_record [OF this] show ?thesis by blast
qed

subsection \<open>Assessments of two records\<close>

text \<open>
  Claim C5. For the SPF record \<^verbatim>\<open>v=spf1 include:example.com -all\<close>, \<^verbatim>\<open>assess_spf\<close>
  reports SPF as present, and its assessment contains "Restrictive policy" and the note
  on include mechanisms.
\<close>

theorem spf_restrictive_with_include:
  "assess_spf (Some ''v=spf1 include:example.com -all'') =
     (True, ''v=spf1 include:example.com -all'',
      ''Restrictive policy (-all). Uses include mechanisms (check third-party senders).'') \<and>
   contains ''Restrictive policy''
     (snd (snd (assess_spf (Some ''v=spf1 include:example.com -all'')))) \<and>
   contains ''include mechanisms''
     (snd (snd (assess_spf (Some ''v=spf1 include:example.com -all''))))"
  by code_simp

text \<open>
  Claim C6. For the DMARC record \<^verbatim>\<open>v=DMARC1; p=none; pct=50\<close>, \<^verbatim>\<open>assess_dmarc\<close> reports
  DMARC as present with the policy "none", and its assessment contains the
  monitoring-only flag (p=none) and the note that DMARC applies to 50% of messages
  (pct=50).
\<close>

theorem dmarc_monitoring_only_with_pct:
  "assess_dmarc (Some ''v=DMARC1; p=none; pct=50'') =
     (True, ''v=DMARC1; p=none; pct=50'', ''none'',
      ''Monitoring-only DMARC policy (p=none). Consider quarantine/reject. No aggregate reporting address (rua) configured. DMARC applies to 50% of messages (pct=50).'') \<and>
   contains ''Monitoring-only DMARC policy (p=none)''
     (snd (snd (snd (assess_dmarc (Some ''v=DMARC1; p=none; pct=50''))))) \<and>
   contains ''DMARC applies to 50% of messages (pct=50)''
     (snd (snd (snd (assess_dmarc (Some ''v=DMARC1; p=none; pct=50'')))))"
  by code_simp

section \<open>RACI generator: properties\<close>

subsection \<open>What a built worksheet holds\<close>

text \<open>
  When a loop of \<^verbatim>\<open>build_raci_excel\<close> runs to its end, its result has one entry for each
  input, made from that input.
\<close>

lemma ws_append_Inr:
  "ws_append bind_value vs = Inr ws \<Longrightarrow>
   length ws = length vs \<and> (\<forall>j < length vs. bind_value (vs ! j) = Inr (ws ! j))"
proof (induction vs arbitrary: ws)
  case Nil
  then show ?case by simp
next
  case (Cons v vs)
  from Cons.prems obtain w ws' where w: "bind_value v = Inr w" and
    r: "ws_append bind_value vs = Inr ws'" and ws: "ws = w # ws'"
    by (auto split: sum.splits)
  from Cons.IH [OF r] have len: "length ws' = length vs"
    and nth: "\<forall>j < length vs. bind_value (vs ! j) = Inr (ws' ! j)" by simp_all
  have "\<forall>j < length (v # vs). bind_value ((v # vs) ! j) = Inr (ws ! j)"
  proof (intro allI impI)
    fix j assume "j < length (v # vs)"
    then show "bind_value ((v # vs) ! j) = Inr (ws ! j)"
      using w nth ws by (cases j) simp_all
  qed
  with len ws show ?case by simp
qed

lemma style_cells_Inr:
  "style_cells vs = Inr cs \<Longrightarrow>
   length cs = length vs \<and> (\<forall>j < length vs. cell_value (cs ! j) = vs ! j)"
proof (induction vs arbitrary: cs)
  case Nil
  then show ?case by simp
next
  case (Cons v vs)
  from Cons.prems obtain c cs' where c: "style_cell v = Inr c" and
    r: "style_cells vs = Inr cs'" and cs: "cs = c # cs'"
    by (auto split: sum.splits)
  from c have cv: "cell_value c = v"
    by (auto simp: style_cell_def Let_def split: yaml.splits if_splits)
  from Cons.IH [OF r] have len: "length cs' = length vs"
    and nth: "\<forall>j < length vs. cell_value (cs' ! j) = vs ! j" by simp_all
  have "\<forall>j < length (v # vs). cell_value (cs ! j) = (v # vs) ! j"
  proof (intro allI impI)
    fix j assume "j < length (v # vs)"
    then show "cell_value (cs ! j) = (v # vs) ! j"
      using cv nth cs by (cases j) simp_all
  qed
  with len cs show ?case by simp
qed

lemma style_row_Inr:
  assumes "style_row row = Inr cs"
  shows "length cs = length row \<and> (\<forall>j < length row. cell_value (cs ! j) = row ! j)"
proof (cases row)
  case Nil
  with assms show ?thesis by (simp add: style_row_def)
next
  case (Cons n vs)
  with assms obtain cs' where r: "style_cells vs = Inr cs'"
    and cs: "cs = \<lparr>cell_value = n, cell_fill = None, cell_bold = False\<rparr> # cs'"
    by (auto simp: style_row_def split: sum.splits)
  from style_cells_Inr [OF r] have len: "length cs' = length vs"
    and nth: "\<forall>j < length vs. cell_value (cs' ! j) = vs ! j" by simp_all
  have "\<forall>j < length row. cell_value (cs ! j) = row ! j"
  proof (intro allI impI)
    fix j assume "j < length row"
    then show "cell_value (cs ! j) = row ! j"
      using nth cs Cons by (cases j) simp_all
  qed
  with len cs Cons show ?thesis by simp
qed

lemma role_cells_map:
  "role_cells (YMap asg) roles =
     Inr (map (\<lambda>role. case map_of asg (YStr role) of None \<Rightarrow> YStr [] | Some v \<Rightarrow> v) roles)"
  by (induction roles) simp_all

lemma task_row_Inr:
  assumes "task_row py_str roles task = Inr row_values"
    and "task_assignments task = Inr (YMap asg)"
  shows "length row_values = Suc (length roles) \<and>
         (\<forall>i < length roles. YStr (roles ! i) \<notin> fst ` set asg \<longrightarrow> row_values ! Suc i = YStr [])"
proof -
  from assms obtain n where
    "row_values = YStr (py_str n) #
       map (\<lambda>role. case map_of asg (YStr role) of None \<Rightarrow> YStr [] | Some v \<Rightarrow> v) roles"
    by (auto simp: task_row_def role_cells_map split: sum.splits)
  then show ?thesis by (auto simp: map_of_eq_None_iff [THEN iffD2])
qed

lemma task_rows_Inr:
  "task_rows bind_value py_str roles tasks = Inr rows' \<Longrightarrow>
   length rows' = length tasks \<and>
   (\<forall>t < length tasks. \<exists>row_values.
      task_row py_str roles (tasks ! t) = Inr row_values \<and>
      ws_append bind_value row_values = Inr (rows' ! t))"
proof (induction tasks arbitrary: rows')
  case Nil
  then show ?case by simp
next
  case (Cons task tasks)
  from Cons.prems obtain rv row rest where
    rv: "task_row py_str roles task = Inr rv" and
    row: "ws_append bind_value rv = Inr row" and
    rest: "task_rows bind_value py_str roles tasks = Inr rest" and
    eq: "rows' = row # rest"
    by (auto split: sum.splits)
  from Cons.IH [OF rest] have len: "length rest = length tasks"
    and nth: "\<forall>t < length tasks. \<exists>row_values.
      task_row py_str roles (tasks ! t) = Inr row_values \<and>
      ws_append bind_value row_values = Inr (rest ! t)" by simp_all
  have "\<forall>t < length (task # tasks). \<exists>row_values.
      task_row py_str roles ((task # tasks) ! t) = Inr row_values \<and>
      ws_append bind_value row_values = Inr (rows' ! t)"
  proof (intro allI impI)
    fix t assume "t < length (task # tasks)"
    then show "\<exists>row_values. task_row py_str roles ((task # tasks) ! t) = Inr row_values \<and>
      ws_append bind_value row_values = Inr (rows' ! t)"
      using rv row nth eq by (cases t) simp_all
  qed
  with len eq show ?case by simp
qed

lemma style_rows_Inr:
  "style_rows rows' = Inr css \<Longrightarrow>
   length css = length rows' \<and> (\<forall>t < length rows'. style_row (rows' ! t) = Inr (css ! t))"
proof (induction rows' arbitrary: css)
  case Nil
  then show ?case by simp
next
  case (Cons row rows')
  from Cons.prems obtain cs rest where
    cs: "style_row row = Inr cs" and rest: "style_rows rows' = Inr rest" and eq: "css = cs # rest"
    by (auto split: sum.splits)
  from Cons.IH [OF rest] have len: "length rest = length rows'"
    and nth: "\<forall>t < length rows'. style_row (rows' ! t) = Inr (rest ! t)" by simp_all
  have "\<forall>t < length (row # rows'). style_row ((row # rows') ! t) = Inr (css ! t)"
  proof (intro allI impI)
    fix t assume "t < length (row # rows')"
    then show "style_row ((row # rows') ! t) = Inr (css ! t)"
      using cs nth eq by (cases t) simp_all
  qed
  with len eq show ?case by simp
qed

text \<open>
  In a built worksheet, the cell under a role that is not a key of the task's
  assignments stores what the library stores for the empty string.
\<close>

lemma built_cell_blank:
  assumes blank: "bind_value (YStr []) = Inr (YStr [])"
    and rows: "task_rows bind_value py_str roles tasks = Inr rows'"
    and cells: "style_rows rows' = Inr css"
    and t: "t < length tasks"
    and asg: "task_assignments (tasks ! t) = Inr (YMap asg)"
  shows "length (css ! t) = Suc (length roles) \<and>
         (\<forall>i < length roles. YStr (roles ! i) \<notin> fst ` set asg \<longrightarrow>
            cell_value (css ! t ! Suc i) = YStr [])"
proof -
  from task_rows_Inr [OF rows] t obtain rv where
    len: "length rows' = length tasks" and
    rv: "task_row py_str roles (tasks ! t) = Inr rv" and
    ap: "ws_append bind_value rv = Inr (rows' ! t)"
    by blast
  from task_row_Inr [OF rv asg] have rvlen: "length rv = Suc (length roles)"
    and rvblank: "\<forall>i < length roles. YStr (roles ! i) \<notin> fst ` set asg \<longrightarrow> rv ! Suc i = YStr []"
    by simp_all
  from ws_append_Inr [OF ap] have rowlen: "length (rows' ! t) = length rv"
    and bound: "\<forall>j < length rv. bind_value (rv ! j) = Inr (rows' ! t ! j)" by simp_all
  from style_rows_Inr [OF cells] t len have st: "style_row (rows' ! t) = Inr (css ! t)" by simp
  from style_row_Inr [OF st] have clen: "length (css ! t) = length (rows' ! t)"
    and cval: "\<forall>j < length (rows' ! t). cell_value (css ! t ! j) = rows' ! t ! j" by simp_all
  have "\<forall>i < length roles. YStr (roles ! i) \<notin> fst ` set asg \<longrightarrow>
            cell_value (css ! t ! Suc i) = YStr []"
  proof (intro allI impI)
    fix i assume i: "i < length roles" and absent: "YStr (roles ! i) \<notin> fst ` set asg"
    from rvblank i absent have "rv ! Suc i = YStr []" by simp
    moreover from i rvlen have j: "Suc i < length rv" by simp
    ultimately have "Inr (rows' ! t ! Suc i) = bind_value (YStr [])" using bound by metis
    with blank have "rows' ! t ! Suc i = YStr []" by simp
    moreover from j rowlen cval have "cell_value (css ! t ! Suc i) = rows' ! t ! Suc i" by simp
    ultimately show "cell_value (css ! t ! Suc i) = YStr []" by simp
  qed
  with clen rowlen rvlen show ?thesis by simp
qed


subsection \<open>Tasks of the documented shape\<close>

text \<open>
  For plain tasks nothing raises: every value is stored as given, and every styled cell
  holds a string.
\<close>

lemma ws_append_as_given:
  "\<forall>v \<in> set vs. bind_value v = Inr v \<Longrightarrow> ws_append bind_value vs = Inr vs"
  by (induction vs) simp_all

lemma style_cells_strings:
  "\<forall>v \<in> set vs. is_str v \<Longrightarrow> \<exists>cs. style_cells vs = Inr cs"
proof (induction vs)
  case Nil
  then show ?case by simp
next
  case (Cons v vs)
  from Cons.prems obtain s where "v = YStr s" by (cases v) simp_all
  then have "\<exists>c. style_cell v = Inr c"
    by (cases "s = []") (simp_all add: style_cell_def Let_def)
  then obtain c where "style_cell v = Inr c" by blast
  moreover from Cons obtain cs where "style_cells vs = Inr cs" by auto
  ultimately show ?case by simp
qed

lemma plain_task_row:
  assumes blank: "bind_value (YStr []) = Inr (YStr [])"
    and plain: "plain_task bind_value py_str task"
  shows "\<exists>row. task_row py_str roles task = Inr row \<and> ws_append bind_value row = Inr row \<and>
           (\<forall>v \<in> set (drop 1 row). is_str v)"
proof -
  from plain obtain n asg where
    n: "py_get task ''name'' (YStr []) = Inr n" and
    bn: "bind_value (YStr (py_str n)) = Inr (YStr (py_str n))" and
    a: "task_assignments task = Inr (YMap asg)" and
    vals: "list_all (\<lambda>(k, v). is_str v \<and> bind_value v = Inr v) asg"
    by (auto simp: plain_task_def split: sum.splits yaml.splits)
  let ?cell = "\<lambda>role. case map_of asg (YStr role) of None \<Rightarrow> YStr [] | Some v \<Rightarrow> v"
  have row: "task_row py_str roles task = Inr (YStr (py_str n) # map ?cell roles)"
    by (simp add: task_row_def n a role_cells_map)
  have cell: "is_str (?cell role) \<and> bind_value (?cell role) = Inr (?cell role)" for role
  proof (cases "map_of asg (YStr role)")
    case None
    with blank show ?thesis by simp
  next
    case (Some v)
    then have "(YStr role, v) \<in> set asg" by (rule map_of_SomeD)
    with vals have "is_str v \<and> bind_value v = Inr v" by (auto simp: list_all_iff)
    with Some show ?thesis by simp
  qed
  have "ws_append bind_value (YStr (py_str n) # map ?cell roles) = Inr (YStr (py_str n) # map ?cell roles)"
    by (rule ws_append_as_given) (use bn cell in auto)
  moreover have "\<forall>v \<in> set (drop 1 (YStr (py_str n) # map ?cell roles)). is_str v"
    using cell by auto
  ultimately show ?thesis using row by simp
qed

lemma plain_tasks_rows:
  assumes blank: "bind_value (YStr []) = Inr (YStr [])"
    and plain: "list_all (plain_task bind_value py_str) tasks"
  shows "\<exists>rows' css. task_rows bind_value py_str roles tasks = Inr rows' \<and> style_rows rows' = Inr css"
  using plain
proof (induction tasks)
  case Nil
  then show ?case by simp
next
  case (Cons task tasks)
  from Cons.prems have p: "plain_task bind_value py_str task"
    and ps: "list_all (plain_task bind_value py_str) tasks" by simp_all
  from plain_task_row [OF blank p, of roles] obtain row where
    row: "task_row py_str roles task = Inr row" and
    ap: "ws_append bind_value row = Inr row" and
    strs: "\<forall>v \<in> set (drop 1 row). is_str v"
    by blast
  from style_cells_strings [OF strs] obtain cs where "style_cells (drop 1 row) = Inr cs" by blast
  then obtain cs' where st: "style_row row = Inr cs'" by (simp add: style_row_def)
  from Cons.IH [OF ps] obtain rows' css where
    "task_rows bind_value py_str roles tasks = Inr rows'" and "style_rows rows' = Inr css" by blast
  with row ap st show ?case by simp
qed

subsection \<open>Unassigned roles\<close>

text \<open>
  Claim C8. Let the data hold a list of roles and a list of tasks, and let the library
  store the empty string as it is. Whenever the worksheet is built, it has one row for
  each task, and in the row of a task the cell under a role is the empty string if that
  role (the string \<^verbatim>\<open>str(role)\<close> that the code looks up) is not a key of the task's
  assignments. And the worksheet is built whenever the library stores the title and the
  roles as given and every task is plain.
\<close>

theorem unassigned_role_cell_is_blank:
  assumes "bind_value (YStr []) = Inr (YStr [])"
    and "py_get data ''roles'' (YList []) = Inr (YList roles)"
    and "py_get data ''tasks'' (YList []) = Inr (YList tasks)"
  shows "(\<forall>ws. build_raci_excel bind_value py_str data = Inr ws \<longrightarrow>
            length (header ws) = Suc (length roles) \<and>
            length (task_cells ws) = length tasks \<and>
            (\<forall>t < length tasks. \<forall>asg. task_assignments (tasks ! t) = Inr (YMap asg) \<longrightarrow>
               length (task_cells ws ! t) = Suc (length roles) \<and>
               (\<forall>i < length roles. YStr (py_str (roles ! i)) \<notin> fst ` set asg \<longrightarrow>
                  cell_value (task_cells ws ! t ! Suc i) = YStr []))) \<and>
         (bind_value (YStr ''Task / Activity'') = Inr (YStr ''Task / Activity'') \<and>
          list_all (\<lambda>r. bind_value (YStr (py_str r)) = Inr (YStr (py_str r))) roles \<and>
          list_all (plain_task bind_value py_str) tasks \<longrightarrow>
            (\<exists>ws. build_raci_excel bind_value py_str data = Inr ws))"
proof (intro conjI allI impI)
  fix ws
  assume b: "build_raci_excel bind_value py_str data = Inr ws"
  then obtain header' rows' css where
    h: "ws_append bind_value (map YStr (''Task / Activity'' # map py_str roles)) = Inr header'" and
    r: "task_rows bind_value py_str (map py_str roles) tasks = Inr rows'" and
    c: "style_rows rows' = Inr css" and
    ws: "ws = \<lparr>header = header', task_cells = css\<rparr>"
    by (auto simp: build_raci_excel_def assms(2,3) Let_def
             simp del: ws_append.simps list.map split: sum.splits)
  from ws_append_Inr [OF h] ws show "length (header ws) = Suc (length roles)" by simp
  from task_rows_Inr [OF r] style_rows_Inr [OF c] ws
  show "length (task_cells ws) = length tasks" by simp
  fix t asg
  assume t: "t < length tasks" and a: "task_assignments (tasks ! t) = Inr (YMap asg)"
  from built_cell_blank [OF assms(1) r c t a] ws
  show "length (task_cells ws ! t) = Suc (length roles)" by simp
  fix i
  assume i: "i < length roles" and absent: "YStr (py_str (roles ! i)) \<notin> fst ` set asg"
  from built_cell_blank [OF assms(1) r c t a] ws i absent
  show "cell_value (task_cells ws ! t ! Suc i) = YStr []" by simp
next
  assume ok: "bind_value (YStr ''Task / Activity'') = Inr (YStr ''Task / Activity'') \<and>
          list_all (\<lambda>r. bind_value (YStr (py_str r)) = Inr (YStr (py_str r))) roles \<and>
          list_all (plain_task bind_value py_str) tasks"
  then have "\<forall>v \<in> set (map YStr (''Task / Activity'' # map py_str roles)). bind_value v = Inr v"
    by (auto simp: list_all_iff)
  from ws_append_as_given [OF this]
  have h: "ws_append bind_value (map YStr (''Task / Activity'' # map py_str roles))
             = Inr (map YStr (''Task / Activity'' # map py_str roles))" .
  from ok have "list_all (plain_task bind_value py_str) tasks" by simp
  from plain_tasks_rows [OF assms(1) this, of "map py_str roles"] obtain rows' css where
    "task_rows bind_value py_str (map py_str roles) tasks = Inr rows'" and
    "style_rows rows' = Inr css" by blast
  with h show "\<exists>ws. build_raci_excel bind_value py_str data = Inr ws"
    by (simp add: build_raci_excel_def assms(2,3) Let_def del: ws_append.simps list.map)
qed


subsection \<open>The data that \<^verbatim>\<open>load_yaml\<close> returns\<close>

text \<open>Whenever \<^verbatim>\<open>load_yaml\<close> returns, \<open>roles\<close> and \<open>tasks\<close> are lists of the data.\<close>

lemma load_yaml_returns_lists:
  assumes "load_yaml path p = (err, Inr data)"
  shows "\<exists>roles tasks. py_get data ''roles'' (YList []) = Inr (YList roles) \<and>
                      py_get data ''tasks'' (YList []) = Inr (YList tasks)"
proof -
  from assms obtain doc where p: "p = File (Parsed doc)"
    by (auto simp: load_yaml_def split: input_file.splits yaml_source.splits)
  let ?d = "if truthy doc then doc else YMap []"
  from assms p obtain r t where
    r: "py_getitem ?d ''roles'' = Inr r" and t: "py_getitem ?d ''tasks'' = Inr t" and
    l: "isinstance_list r" "isinstance_list t" and d: "data = ?d"
    by (auto simp: load_yaml_def Let_def split: sum.splits bool.splits if_splits)
  from r obtain kvs where k: "?d = YMap kvs" by (cases ?d) simp_all
  from l obtain roles tasks where "r = YList roles" "t = YList tasks"
    by (cases r; cases t) simp_all
  with r t k d show ?thesis by (auto split: option.splits)
qed

text \<open>
  Two inputs on which no worksheet is built: a code that is a number reaches the styling
  loop and raises \<^verbatim>\<open>AttributeError\<close> there; a code that is a list is refused by the
  library in \<^verbatim>\<open>ws.append\<close>.
\<close>

lemma build_raises_on_number_code:
  "build_raci_excel sample_bind_value sample_str
     (YMap [(YStr ''roles'', YList [YStr ''a'', YStr ''b'']),
            (YStr ''tasks'',
             YList [YMap [(YStr ''name'', YStr ''T''),
                          (YStr ''assignments'', YMap [(YStr ''a'', YInt 1)])]])])
   = Inl AttributeError"
  by code_simp

lemma build_raises_on_list_code:
  "build_raci_excel sample_bind_value sample_str
     (YMap [(YStr ''roles'', YList [YStr ''a'', YStr ''b'']),
            (YStr ''tasks'',
             YList [YMap [(YStr ''name'', YStr ''T''),
                          (YStr ''assignments'', YMap [(YStr ''a'', YList [YStr ''R'', YStr ''A''])])]])])
   = Inl (LibraryError ''ValueError'')"
  by code_simp

text \<open>Two roles and one task that assigns only the first.\<close>

theorem unassigned_role_cell_is_blank_witness:
  "\<exists>ws. build_raci_excel sample_bind_value sample_str
          (YMap [(YStr ''roles'', YList [YStr ''IR Lead'', YStr ''DPO'']),
                 (YStr ''tasks'',
                  YList [YMap [(YStr ''name'', YStr ''Incident Logging''),
                               (YStr ''assignments'', YMap [(YStr ''IR Lead'', YStr ''A'')])]])])
        = Inr ws \<and>
        length (task_cells ws) = 1 \<and>
        cell_value (task_cells ws ! 0 ! 2) = YStr []"
proof -
  let ?roles = "[YStr ''IR Lead'', YStr ''DPO'']"
  let ?asg = "[(YStr ''IR Lead'', YStr ''A'')]"
  let ?tasks = "[YMap [(YStr ''name'', YStr ''Incident Logging''), (YStr ''assignments'', YMap ?asg)]]"
  let ?data = "YMap [(YStr ''roles'', YList ?roles), (YStr ''tasks'', YList ?tasks)]"
  have e: "sample_bind_value (YStr []) = Inr (YStr [])" by (simp add: sample_bind_value_def)
  have r: "py_get ?data ''roles'' (YList []) = Inr (YList ?roles)" by simp
  have t: "py_get ?data ''tasks'' (YList []) = Inr (YList ?tasks)" by simp
  have a: "task_assignments (?tasks ! 0) = Inr (YMap ?asg)" by (simp add: task_assignments_def)
  have h: "sample_bind_value (YStr ''Task / Activity'') = Inr (YStr ''Task / Activity'')"
    by (simp add: sample_bind_value_def)
  have rs: "list_all (\<lambda>r. sample_bind_value (YStr (sample_str r)) = Inr (YStr (sample_str r))) ?roles"
    by (simp add: sample_bind_value_def)
  have p: "list_all (plain_task sample_bind_value sample_str) ?tasks"
    by (simp add: plain_task_def task_assignments_def sample_bind_value_def)
  note blank = unassigned_role_cell_is_blank
    [where bind_value = sample_bind_value and py_str = sample_str, OF e r t]
  from blank h rs p obtain ws where b: "build_raci_excel sample_bind_value sample_str ?data = Inr ws"
    by blast
  from blank b have len: "length (task_cells ws) = length ?tasks" and
    c: "\<forall>t < length ?tasks. \<forall>asg. task_assignments (?tasks ! t) = Inr (YMap asg) \<longrightarrow>
          length (task_cells ws ! t) = Suc (length ?roles) \<and>
          (\<forall>i < length ?roles. YStr (sample_str (?roles ! i)) \<notin> fst ` set asg \<longrightarrow>
             cell_value (task_cells ws ! t ! Suc i) = YStr [])"
    by blast+
  from c a have "\<forall>i < length ?roles. YStr (sample_str (?roles ! i)) \<notin> fst ` set ?asg \<longrightarrow>
             cell_value (task_cells ws ! 0 ! Suc i) = YStr []"
    by simp
  then have "YStr (sample_str (?roles ! 1)) \<notin> fst ` set ?asg \<longrightarrow>
               cell_value (task_cells ws ! 0 ! Suc 1) = YStr []"
    by simp
  then have "cell_value (task_cells ws ! 0 ! 2) = YStr []"
    by (simp add: numeral_2_eq_2 sample_str_def)
  with b len show ?thesis by simp
qed

subsection \<open>Documents without the required keys\<close>

text \<open>
  A mapping without \<open>roles\<close> or without \<open>tasks\<close>, and an empty document, end the
  generator with the message that names the two keys and with exit status 1.
\<close>

lemma load_yaml_mapping_missing_key:
  assumes "\<not> has_key (YMap kvs) ''roles'' \<or> \<not> has_key (YMap kvs) ''tasks''"
  shows "load_yaml path (File (Parsed (YMap kvs))) =
           ([''Error: YAML must contain 'roles' and 'tasks' keys.''], Inl (SystemExit 1))"
  using assms by (cases "kvs = []") (auto simp: load_yaml_def Let_def)

lemma load_yaml_falsy:
  assumes "\<not> truthy doc"
  shows "load_yaml path (File (Parsed doc)) =
           ([''Error: YAML must contain 'roles' and 'tasks' keys.''], Inl (SystemExit 1))"
  using assms by (simp add: load_yaml_def Let_def)

lemma mapping_without_keys_exits_1:
  assumes "\<not> has_key (YMap kvs) ''roles'' \<or> \<not> has_key (YMap kvs) ''tasks''"
  shows "raci_main bind_value py_str path (File (Parsed (YMap kvs))) =
           ([''Error: YAML must contain 'roles' and 'tasks' keys.''], Inl (SystemExit 1)) \<and>
         process_end (raci_main bind_value py_str path (File (Parsed (YMap kvs)))) =
           (1, [''Error: YAML must contain 'roles' and 'tasks' keys.''])"
  using load_yaml_mapping_missing_key [OF assms, of path] by (simp add: raci_main_def)

text \<open>
  Claim C9. A document that lacks the key \<open>roles\<close> or the key \<open>tasks\<close> is to end the
  generator with exit status 1 after a descriptive message on standard error. A mapping
  does (\<open>mapping_without_keys_exits_1\<close>). The document that is the string
  \<^verbatim>\<open>roles tasks\<close> does not: it has no key, both tests \<^verbatim>\<open>"roles" not in data\<close> and
  \<^verbatim>\<open>"tasks" not in data\<close> are substring tests and pass, \<^verbatim>\<open>data["roles"]\<close> raises
  \<^verbatim>\<open>TypeError\<close>, \<^verbatim>\<open>load_yaml\<close> has printed nothing, and the process ends with status 1
  on the interpreter's traceback.
\<close>

theorem string_document_ends_in_traceback:
  "\<not> has_key (YStr ''roles tasks'') ''roles'' \<and>
   load_yaml ''raci.yaml'' (File (Parsed (YStr ''roles tasks''))) = ([], Inl TypeError) \<and>
   process_end (raci_main sample_bind_value sample_str ''raci.yaml''
                  (File (Parsed (YStr ''roles tasks''))))
     = (1, [''Traceback (most recent call last):''])"
  by code_simp

text \<open>The same run, read for its exit status and for what \<^verbatim>\<open>load_yaml\<close> printed.\<close>

theorem string_document_ends_in_traceback_witness:
  "fst (process_end (raci_main sample_bind_value sample_str ''raci.yaml''
                       (File (Parsed (YStr ''roles tasks''))))) = 1 \<and>
   fst (load_yaml ''raci.yaml'' (File (Parsed (YStr ''roles tasks'')))) = []"
  using string_document_ends_in_traceback by simp

end
